theory Spec2Isabelle
  imports Complex_Main
begin

section \<open>Values of the program\<close>

text \<open>
  Identifiers. An ObjectId is written as its 24-character hexadecimal string. A by-id
  operation of the repository receives either an ObjectId instance or a string.
\<close>

type_synonym oid = string
type_synonym time = nat

datatype id_arg = IdObject oid | IdString string

datatype session = Session nat

text \<open>
  The source throws \<open>Error\<close> objects told apart by their message. The model names the
  kinds of the specification's taxonomy:
  \<^item> \<open>Invalid ObjectId: ...\<close> is \<open>InvalidIdentifier\<close>;
  \<open>Document creation was not acknowledged\<close> is \<open>WriteNotAcknowledged\<close>;
  \<^item> \<open>User not found\<close>, \<open>Product ... not found\<close>, \<open>Source user not found\<close>,
  \<open>Destination user not found\<close>, \<open>Order not found\<close> are \<open>NotFound\<close>;
  \<^item> \<open>Insufficient stock for product ...\<close> is \<open>OutOfStock\<close>;
  \<open>Insufficient balance ...\<close> is \<open>InsufficientFunds\<close>;
  \<^item> \<open>Order is already cancelled\<close> is \<open>AlreadyCancelled\<close>;
  \<open>Cannot cancel shipped or delivered orders\<close> is \<open>NotCancellable\<close>;
  \<^item> \<open>Transfer amount must be positive\<close> is \<open>InvalidAmount\<close>;
  \<open>Invalid price for product ...\<close> is \<open>InvalidPrice\<close>;
  \<^item> \<open>DuplicateKey\<close> is the store's error for an insert under an identifier in use.
\<close>

datatype error =
    InvalidIdentifier
  | WriteNotAcknowledged
  | DuplicateKey
  | NotFound
  | OutOfStock
  | InsufficientFunds
  | AlreadyCancelled
  | NotCancellable
  | InvalidAmount
  | InvalidPrice

subsection \<open>Numbers\<close>

text \<open>
  A JavaScript number is an IEEE 754 binary64 value: a finite number, with the two
  zeros told apart, one of the two infinities, or NaN. \<open>Finite r\<close> stands for the double
  of value \<open>r\<close>, \<open>Finite 0\<close> for the positive zero and \<open>NegZero\<close> for the negative
  one. An arithmetic operation gives the double nearest to the exact result, a tie going
  to the even significand; a result beyond the largest double becomes an infinity, and
  one that rounds to zero keeps its sign. The doubles are the values \<open>Finite r\<close> that
  this rounding leaves as they are; what is proved for every value of the type holds for
  them.
\<close>

datatype jsnum = Finite real | NegZero | PosInfinity | NegInfinity | NaN

text \<open>\<open>log2_nat n\<close> is the position of the leading binary digit of \<open>n\<close>.\<close>

fun log2_nat :: "nat \<Rightarrow> nat" where
  "log2_nat n = (if n < 2 then 0 else Suc (log2_nat (n div 2)))"

declare log2_nat.simps [simp del]

text \<open>\<open>floor_log2 x\<close> is the binary exponent of a positive \<open>x\<close>.\<close>

definition floor_log2 :: "real \<Rightarrow> int" where
  "floor_log2 x =
     (if 1 \<le> x then int (log2_nat (nat \<lfloor>x\<rfloor>))
      else if nat \<lceil>1 / x\<rceil> \<le> 1 then 0
      else - int (Suc (log2_nat (nat \<lceil>1 / x\<rceil> - 1))))"

definition two_to :: "int \<Rightarrow> real" where
  "two_to e = (if 0 \<le> e then 2 ^ nat e else 1 / 2 ^ nat (- e))"

definition round_half_even :: "real \<Rightarrow> int" where
  "round_half_even q =
     (if q - of_int \<lfloor>q\<rfloor> < 1 / 2 then \<lfloor>q\<rfloor>
      else if 1 / 2 < q - of_int \<lfloor>q\<rfloor> then \<lfloor>q\<rfloor> + 1
      else if even \<lfloor>q\<rfloor> then \<lfloor>q\<rfloor> else \<lfloor>q\<rfloor> + 1)"

text \<open>
  \<open>round_double x\<close> is the double that the exact result \<open>x\<close> of an operation becomes.
  The spacing of the doubles around \<open>x\<close> is \<open>2\<close> to the power \<open>e - 52\<close>, where \<open>e\<close> is
  the exponent of \<open>x\<close> and at least \<open>- 1022\<close>, the exponent of the subnormal numbers.
\<close>

definition round_double :: "real \<Rightarrow> jsnum" where
  "round_double x =
     (if x = 0 then Finite 0
      else
        let e = max (floor_log2 \<bar>x\<bar>) (- 1022);
            ulp = two_to (e - 52);
            r = of_int (round_half_even (\<bar>x\<bar> / ulp)) * ulp
        in if two_to 1024 \<le> r then (if x < 0 then NegInfinity else PosInfinity)
           else if r = 0 then (if x < 0 then NegZero else Finite 0)
           else Finite (if x < 0 then - r else r))"

fun val :: "jsnum \<Rightarrow> real" where
  "val (Finite r) = r"
| "val _ = 0"

fun negative :: "jsnum \<Rightarrow> bool" where
  "negative (Finite r) = (r < 0)"
| "negative NegZero = True"
| "negative NegInfinity = True"
| "negative _ = False"

fun isFinite :: "jsnum \<Rightarrow> bool" where
  "isFinite (Finite r) = True"
| "isFinite NegZero = True"
| "isFinite _ = False"

definition isZero :: "jsnum \<Rightarrow> bool" where
  "isZero a = (a = Finite 0 \<or> a = NegZero)"

definition signed_zero :: "bool \<Rightarrow> jsnum" where
  "signed_zero neg = (if neg then NegZero else Finite 0)"

definition signed_infinity :: "bool \<Rightarrow> jsnum" where
  "signed_infinity neg = (if neg then NegInfinity else PosInfinity)"

text \<open>
  The operators of the language on numbers. \<open>a - b\<close> is \<open>a + (- b)\<close>; a comparison with
  NaN is false, and the two zeros compare equal. \<open>truthy\<close> is the test that \<open>||\<close>
  makes on a number.
\<close>

instantiation jsnum :: "{zero, one, plus, uminus, minus, times, inverse, ord}"
begin

definition zero_jsnum_def: "0 = Finite 0"

definition one_jsnum_def: "1 = Finite 1"

definition uminus_jsnum_def:
  "- a =
     (case a of
        Finite r \<Rightarrow> (if r = 0 then NegZero else Finite (- r))
      | NegZero \<Rightarrow> Finite 0
      | PosInfinity \<Rightarrow> NegInfinity
      | NegInfinity \<Rightarrow> PosInfinity
      | NaN \<Rightarrow> NaN)"

definition plus_jsnum_def:
  "a + b =
     (if a = NaN \<or> b = NaN then NaN
      else if \<not> isFinite a \<and> \<not> isFinite b then (if a = b then a else NaN)
      else if \<not> isFinite a then a
      else if \<not> isFinite b then b
      else if a = NegZero \<and> b = NegZero then NegZero
      else round_double (val a + val b))"

definition minus_jsnum_def: "a - b = a + (- b :: jsnum)"

definition times_jsnum_def:
  "a * b =
     (if a = NaN \<or> b = NaN then NaN
      else if \<not> (isFinite a \<and> isFinite b) then
        (if isZero a \<or> isZero b then NaN else signed_infinity (negative a \<noteq> negative b))
      else if val a * val b = 0 then signed_zero (negative a \<noteq> negative b)
      else round_double (val a * val b))"

definition divide_jsnum_def:
  "a div b =
     (if a = NaN \<or> b = NaN then NaN
      else if \<not> isFinite a then
        (if \<not> isFinite b then NaN else signed_infinity (negative a \<noteq> negative b))
      else if \<not> isFinite b then signed_zero (negative a \<noteq> negative b)
      else if isZero b then
        (if isZero a then NaN else signed_infinity (negative a \<noteq> negative b))
      else if isZero a then signed_zero (negative a \<noteq> negative b)
      else round_double (val a / val b))"

definition inverse_jsnum_def: "inverse a = Finite 1 div (a :: jsnum)"

definition less_jsnum_def:
  "a < b =
     (a \<noteq> NaN \<and> b \<noteq> NaN \<and> a \<noteq> PosInfinity \<and> b \<noteq> NegInfinity \<and>
      (a = NegInfinity \<or> b = PosInfinity \<or> val a < val b))"

definition less_eq_jsnum_def:
  "a \<le> b = (a \<noteq> NaN \<and> b \<noteq> NaN \<and> \<not> (b < (a :: jsnum)))"

instance ..

end

definition truthy :: "jsnum \<Rightarrow> bool" where
  "truthy a = (a \<noteq> NaN \<and> \<not> isZero a)"

section \<open>Documents\<close>

text \<open>
  Documents are typed records with every field of the data model present. A counter or a
  list that a stored document could lack is present with the value that \<open>$inc\<close> and
  \<open>$push\<close> start from, 0 and the empty list.
\<close>

record stamps =
  createdAt :: time
  updatedAt :: time

record ledger_entry =
  le_id :: string
  le_type :: string
  le_amount :: jsnum
  le_toUserId :: "id_arg option"
  le_fromUserId :: "id_arg option"
  le_description :: string
  le_timestamp :: time
  le_status :: string

record user = stamps +
  u_name :: string
  u_email :: string
  balance :: jsnum
  u_status :: string
  preferences :: "(string \<times> string) list"
  orderHistory :: "oid list"
  transactions :: "ledger_entry list"
  totalOrders :: jsnum
  totalSpent :: jsnum
  cancelledOrders :: jsnum

record stock_entry =
  se_orderId :: oid
  se_change :: jsnum
  se_timestamp :: time
  se_reason :: string

record price_entry =
  pe_oldPrice :: jsnum
  pe_newPrice :: jsnum
  pe_change :: jsnum
  pe_changePercent :: jsnum
  pe_reason :: string
  pe_timestamp :: time
  pe_updatedBy :: string

record product = stamps +
  p_name :: string
  p_category :: string
  price :: jsnum
  stock :: jsnum
  stockHistory :: "stock_entry list"
  priceHistory :: "price_entry list"

text \<open>
  An order item as the caller builds it: \<open>price\<close> and \<open>total\<close> are absent until
  \<open>processOrder\<close> writes them.
\<close>

record item =
  i_productId :: id_arg
  i_quantity :: jsnum
  i_price :: "jsnum option"
  i_total :: "jsnum option"

text \<open>
  An order is held in two forms. In the program its \<open>items\<close> are references to item
  objects (\<open>ref order\<close>); in the store they are the values that the objects had when
  the document was written (\<open>item order\<close>).
\<close>

type_synonym ref = nat

record 'i order = stamps +
  o_userId :: id_arg
  o_shippingAddress :: string
  o_paymentMethod :: string
  o_items :: "'i list"
  o_total :: jsnum
  o_status :: string
  o_cancelledAt :: "time option"
  o_cancellationReason :: "string option"

text \<open>
  A profile is an open object: \<open>pr_fields\<close> maps the names of its properties, other
  than the two stamps, to their values.
\<close>

datatype field = IdField oid | TextField string | NumberField jsnum | BoolField bool

record profile = stamps +
  pr_fields :: "string \<rightharpoonup> field"

section \<open>The store, its sessions and the objects of the caller\<close>

record store =
  users :: "oid \<rightharpoonup> user"
  orders :: "oid \<rightharpoonup> item order"
  products :: "oid \<rightharpoonup> product"
  profiles :: "oid \<rightharpoonup> profile"

datatype access =
    FindOne oid
  | InsertOne oid
  | FindOneAndUpdate oid
  | FindOneAndDelete oid

datatype event =
    StartSession session
  | CommitTransaction session
  | AbortTransaction session
  | EndSession session
  | Access string access "session option"

text \<open>
  The world a call runs in. \<open>committed\<close> is what the store holds durably and what an
  operation without a session sees; \<open>working\<close> is the view of the open transaction,
  which operations carrying the session read and write. \<open>trace\<close> lists the calls that
  reached the driver, each with the session it was given. \<open>idgen\<close> and \<open>next_id\<close> are
  the driver's supply of generated identifiers. \<open>heap\<close> holds the item objects of the
  caller, which \<open>processOrder\<close> receives by reference. The connection is taken as
  established, and calls do not interleave.
\<close>

record world =
  committed :: store
  working :: store
  trace :: "event list"
  next_session :: nat
  idgen :: "nat \<Rightarrow> oid"
  next_id :: nat
  heap :: "ref \<Rightarrow> item"

type_synonym 'a io = "world \<Rightarrow> (error + 'a) \<times> world"

definition succeed :: "'a \<Rightarrow> 'a io" where
  "succeed x = (\<lambda>w. (Inr x, w))"

definition throw :: "error \<Rightarrow> 'a io" where
  "throw e = (\<lambda>w. (Inl e, w))"

definition andThen :: "'a io \<Rightarrow> ('a \<Rightarrow> 'b io) \<Rightarrow> 'b io" where
  "andThen m f =
     (\<lambda>w. case m w of
             (Inl e, w') \<Rightarrow> (Inl e, w')
           | (Inr x, w') \<Rightarrow> f x w')"

subsection \<open>The driver\<close>

text \<open>
  Modelled from the spec: the document store is an external collaborator (the MongoDB
  driver, which is not part of the repository), assumed to give per-document
  identifiers, transactional sessions with commit and abort, and incrementing updates.
  As the driver documents it, an operation given a session acts on that session's
  transaction and one given none acts on the committed data, outside any transaction.
  An update document is modelled by its effect on the matched document: \<open>$inc\<close>
  adds, \<open>$push\<close> appends at the end, \<open>$set\<close> overwrites, \<open>$pull\<close> removes every
  equal element. Numbers are stored as doubles, and \<open>$inc\<close> adds as the language
  does. An insert is acknowledged, as every write inside a transaction is.

  A collection is known by its name, by its place in the store (\<open>cget\<close>, \<open>cput\<close>),
  by the \<open>_id\<close> that a document of the program brings with it, if any (\<open>cid\<close>), and by
  the way such a document is serialised when it is written (\<open>cser\<close>): the store keeps
  the values that the objects referred to have at that moment, not the objects.
\<close>

record ('j, 'd) coll =
  cname :: string
  cget :: "store \<Rightarrow> (oid \<rightharpoonup> 'd)"
  cput :: "(oid \<rightharpoonup> 'd) \<Rightarrow> store \<Rightarrow> store"
  cid :: "'j \<Rightarrow> oid option"
  cser :: "(ref \<Rightarrow> item) \<Rightarrow> 'j \<Rightarrow> 'd"

definition users_coll :: "(user, user) coll" where
  "users_coll =
     \<lparr>cname = ''users'', cget = users, cput = (\<lambda>m s. s\<lparr>users := m\<rparr>),
      cid = (\<lambda>d. None), cser = (\<lambda>h d. d)\<rparr>"

text \<open>
  Modelled from the spec: the driver serialises an order with the content of the item
  objects that it refers to.
\<close>

definition serialize_order :: "(ref \<Rightarrow> item) \<Rightarrow> ref order \<Rightarrow> item order" where
  "serialize_order h d =
     \<lparr>createdAt = createdAt d, updatedAt = updatedAt d,
      o_userId = o_userId d,
      o_shippingAddress = o_shippingAddress d,
      o_paymentMethod = o_paymentMethod d,
      o_items = map h (o_items d),
      o_total = o_total d,
      o_status = o_status d,
      o_cancelledAt = o_cancelledAt d,
      o_cancellationReason = o_cancellationReason d\<rparr>"

definition orders_coll :: "(ref order, item order) coll" where
  "orders_coll =
     \<lparr>cname = ''orders'', cget = orders, cput = (\<lambda>m s. s\<lparr>orders := m\<rparr>),
      cid = (\<lambda>d. None), cser = serialize_order\<rparr>"

definition products_coll :: "(product, product) coll" where
  "products_coll =
     \<lparr>cname = ''products'', cget = products, cput = (\<lambda>m s. s\<lparr>products := m\<rparr>),
      cid = (\<lambda>d. None), cser = (\<lambda>h d. d)\<rparr>"

definition profiles_coll :: "(profile, profile) coll" where
  "profiles_coll =
     \<lparr>cname = ''profiles'', cget = profiles, cput = (\<lambda>m s. s\<lparr>profiles := m\<rparr>),
      cid = (\<lambda>d. case pr_fields d ''_id'' of Some (IdField i) \<Rightarrow> Some i | _ \<Rightarrow> None),
      cser = (\<lambda>h d. d)\<rparr>"

definition view :: "session option \<Rightarrow> world \<Rightarrow> store" where
  "view opt w = (case opt of None \<Rightarrow> committed w | Some s \<Rightarrow> working w)"

definition modify :: "session option \<Rightarrow> (store \<Rightarrow> store) \<Rightarrow> world \<Rightarrow> world" where
  "modify opt f w =
     (case opt of
        None \<Rightarrow> w\<lparr>committed := f (committed w)\<rparr>
      | Some s \<Rightarrow> w\<lparr>working := f (working w)\<rparr>)"

definition logged :: "event \<Rightarrow> world \<Rightarrow> world" where
  "logged e w = w\<lparr>trace := trace w @ [e]\<rparr>"

text \<open>A document read from the store comes with its \<open>_id\<close>.\<close>

type_synonym 'd doc = "oid \<times> 'd"

record insert_result =
  acknowledged :: bool
  insertedId :: oid

definition findOne :: "('j, 'd) coll \<Rightarrow> oid \<Rightarrow> session option \<Rightarrow> 'd doc option io" where
  "findOne c i opt w =
     (Inr (map_option (Pair i) (cget c (view opt w) i)),
      logged (Access (cname c) (FindOne i) opt) w)"

text \<open>
  Modelled from the spec: \<open>insertOne\<close> of the driver writes the document, as it is
  serialised at the call, under its own \<open>_id\<close>, or under a generated one when it has
  none, and fails when that identifier is in use.
\<close>

definition insertOne :: "('j, 'd) coll \<Rightarrow> 'j \<Rightarrow> session option \<Rightarrow> insert_result io" where
  "insertOne c doc opt w =
     (let (i, w0) = (case cid c doc of
                       Some i \<Rightarrow> (i, w)
                     | None \<Rightarrow> (idgen w (next_id w), w\<lparr>next_id := Suc (next_id w)\<rparr>));
          w1 = logged (Access (cname c) (InsertOne i) opt) w0
      in if cget c (view opt w1) i \<noteq> None then (Inl DuplicateKey, w1)
         else (Inr \<lparr>acknowledged = True, insertedId = i\<rparr>,
               modify opt (\<lambda>s. cput c ((cget c s)(i \<mapsto> cser c (heap w1) doc)) s) w1))"

definition findOneAndUpdate ::
  "('j, 'd) coll \<Rightarrow> oid \<Rightarrow> ('d \<Rightarrow> 'd) \<Rightarrow> session option \<Rightarrow> 'd doc option io" where
  "findOneAndUpdate c i upd opt w =
     (let w1 = logged (Access (cname c) (FindOneAndUpdate i) opt) w
      in case cget c (view opt w1) i of
           None \<Rightarrow> (Inr None, w1)
         | Some d \<Rightarrow>
             (Inr (Some (i, upd d)), modify opt (\<lambda>s. cput c ((cget c s)(i \<mapsto> upd d)) s) w1))"

definition findOneAndDelete :: "('j, 'd) coll \<Rightarrow> oid \<Rightarrow> session option \<Rightarrow> 'd doc option io" where
  "findOneAndDelete c i opt w =
     (let w1 = logged (Access (cname c) (FindOneAndDelete i) opt) w
      in case cget c (view opt w1) i of
           None \<Rightarrow> (Inr None, w1)
         | Some d \<Rightarrow>
             (Inr (Some (i, d)), modify opt (\<lambda>s. cput c ((cget c s)(i := None)) s) w1))"

text \<open>
  Sessions of the driver. \<open>startSession\<close> hands out a new session.
  The session's \<open>withTransaction\<close> opens a transaction on the committed data, runs the
  callback, and commits the transaction's view when the callback returns or discards it
  when the callback throws, passing the error on.
\<close>

definition startSession :: "world \<Rightarrow> session \<times> world" where
  "startSession w =
     (Session (next_session w),
      logged (StartSession (Session (next_session w)))
        (w\<lparr>next_session := Suc (next_session w)\<rparr>))"

definition session_withTransaction :: "session \<Rightarrow> 'a io \<Rightarrow> 'a io" where
  "session_withTransaction session fn w =
     (case fn (w\<lparr>working := committed w\<rparr>) of
        (Inr result, w') \<Rightarrow>
          (Inr result, logged (CommitTransaction session) (w'\<lparr>committed := working w'\<rparr>))
      | (Inl e, w') \<Rightarrow>
          (Inl e, logged (AbortTransaction session) (w'\<lparr>working := committed w'\<rparr>)))"

definition endSession :: "session \<Rightarrow> world \<Rightarrow> world" where
  "endSession session w = logged (EndSession session) w"

text \<open>
  Modelled from the spec: \<open>ObjectId.isValid(id) && String(new ObjectId(id)) === id\<close>
  calls the identifier library, which is not part of the repository. A string passes
  both tests exactly when it is the canonical form: 24 lower-case hexadecimal digits.
\<close>

definition isValidObjectId :: "string \<Rightarrow> bool" where
  "isValidObjectId s = (length s = 24 \<and> list_all (\<lambda>c. c \<in> set ''0123456789abcdef'') s)"

section \<open>Repository (crudOperations.js)\<close>

definition toObjectId :: "id_arg \<Rightarrow> error + oid" where
  "toObjectId a =
     (case a of
        IdObject i \<Rightarrow> Inr i
      | IdString s \<Rightarrow> (if isValidObjectId s then Inr s else Inl InvalidIdentifier))"

text \<open>
  \<open>createOne\<close> returns \<open>{_id: result.insertedId, ...docToInsert}\<close>: a new object whose
  properties are those of \<open>docToInsert\<close>, themselves copied from \<open>document\<close>. The
  copies are shallow, so a property that refers to objects refers to the same ones.
\<close>

definition createOne ::
  "('z stamps_scheme, 'd) coll \<Rightarrow> time \<Rightarrow> 'z stamps_scheme \<Rightarrow> session option \<Rightarrow>
     ('z stamps_scheme) doc io" where
  "createOne c now document opt =
     (let docToInsert = document\<lparr>createdAt := now, updatedAt := now\<rparr>
      in andThen (insertOne c docToInsert opt) (\<lambda>result.
           if \<not> acknowledged result then throw WriteNotAcknowledged
           else succeed (insertedId result, docToInsert)))"

definition findById :: "('j, 'd) coll \<Rightarrow> id_arg \<Rightarrow> session option \<Rightarrow> 'd doc option io" where
  "findById c a opt =
     (case toObjectId a of
        Inl e \<Rightarrow> throw e
      | Inr objectId \<Rightarrow> findOne c objectId opt)"

definition updateById ::
  "('j, 'z stamps_scheme) coll \<Rightarrow> time \<Rightarrow> id_arg \<Rightarrow> ('z stamps_scheme \<Rightarrow> 'z stamps_scheme) \<Rightarrow>
     session option \<Rightarrow> ('z stamps_scheme) doc option io" where
  "updateById c now a update opt =
     (case toObjectId a of
        Inl e \<Rightarrow> throw e
      | Inr objectId \<Rightarrow>
          findOneAndUpdate c objectId (\<lambda>d. (update d)\<lparr>updatedAt := now\<rparr>) opt)"

definition deleteById :: "('j, 'd) coll \<Rightarrow> id_arg \<Rightarrow> session option \<Rightarrow> 'd doc option io" where
  "deleteById c a opt =
     (case toObjectId a of
        Inl e \<Rightarrow> throw e
      | Inr objectId \<Rightarrow> findOneAndDelete c objectId opt)"

text \<open>
  \<open>withTransaction\<close> of the repository: \<open>startSession\<close>, then the session's own
  \<open>withTransaction\<close> around the operations, and \<open>endSession\<close> in the \<open>finally\<close>
  block. The \<open>catch\<close> block logs and rethrows.
\<close>

definition withTransaction :: "(session \<Rightarrow> 'a io) \<Rightarrow> 'a io" where
  "withTransaction operations w =
     (case startSession w of
        (session, w1) \<Rightarrow>
          (case session_withTransaction session (operations session) w1 of
             (result, w2) \<Rightarrow> (result, endSession session w2)))"

section \<open>Workflows (transactionService.js)\<close>

text \<open>
  Every \<open>new Date()\<close> of one workflow call reads the same instant \<open>now\<close>, and
  \<open>toString\<close> is the decimal rendering of \<open>getTime().toString()\<close>. The \<open>catch\<close>
  blocks of the workflows log and rethrow, so they are the identity on results.
\<close>

definition digit :: "nat \<Rightarrow> char" where
  "digit d = ''0123456789'' ! d"

fun toString :: "nat \<Rightarrow> string" where
  "toString n = (if n < 10 then [digit n] else toString (n div 10) @ [digit (n mod 10)])"

declare toString.simps [simp del]

subsection \<open>processOrder\<close>

record order_data =
  od_userId :: id_arg
  od_shippingAddress :: string
  od_paymentMethod :: string

record inventory_update =
  iu_productId :: id_arg
  quantityToReduce :: jsnum
  currentStock :: jsnum

text \<open>
  The result object. Its \<open>order\<close> is the object that \<open>createOne\<close> returned.
\<close>

record order_result =
  or_success :: bool
  or_order :: "(ref order) doc"
  or_totalAmount :: jsnum
  or_message :: string

definition readItem :: "ref \<Rightarrow> item io" where
  "readItem r = (\<lambda>w. (Inr (heap w r), w))"

definition writeItem :: "ref \<Rightarrow> item \<Rightarrow> unit io" where
  "writeItem r it = (\<lambda>w. (Inr (), w\<lparr>heap := (heap w)(r := it)\<rparr>))"

text \<open>Step 2 of \<open>processOrder\<close>: the loop over the items.\<close>

fun reserveItems ::
  "ref list \<Rightarrow> inventory_update list \<Rightarrow> jsnum \<Rightarrow> (inventory_update list \<times> jsnum) io" where
  "reserveItems [] inventoryUpdates totalAmount = succeed (inventoryUpdates, totalAmount)"
| "reserveItems (r # rs) inventoryUpdates totalAmount =
     andThen (readItem r) (\<lambda>item.
     andThen (findById products_coll (i_productId item) None) (\<lambda>found.
       case found of
         None \<Rightarrow> throw NotFound
       | Some (pid, product) \<Rightarrow>
           if stock product < i_quantity item then throw OutOfStock
           else
             let itemTotal = price product * i_quantity item
             in andThen (writeItem r (item\<lparr>i_price := Some (price product),
                                             i_total := Some itemTotal\<rparr>)) (\<lambda>_.
                reserveItems rs
                  (inventoryUpdates @
                     [\<lparr>iu_productId = i_productId item,
                       quantityToReduce = i_quantity item,
                       currentStock = stock product\<rparr>])
                  (totalAmount + itemTotal))))"

text \<open>Step 4 of \<open>processOrder\<close>: the loop over the planned updates.\<close>

fun updateInventory :: "time \<Rightarrow> oid \<Rightarrow> session \<Rightarrow> inventory_update list \<Rightarrow> unit io" where
  "updateInventory now orderId session [] = succeed ()"
| "updateInventory now orderId session (update # updates) =
     andThen (updateById products_coll now (iu_productId update)
                (\<lambda>p. p\<lparr>stock := stock p + (- quantityToReduce update),
                         stockHistory := stockHistory p @
                           [\<lparr>se_orderId = orderId,
                             se_change = - quantityToReduce update,
                             se_timestamp = now,
                             se_reason = ''order_placed''\<rparr>]\<rparr>)
                (Some session)) (\<lambda>_.
     updateInventory now orderId session updates)"

text \<open>
  The document handed to \<open>createOne\<close> has no stamps of its own; \<open>createOne\<close> writes
  both, so the zeros below are never read.
\<close>

definition processOrder :: "time \<Rightarrow> order_data \<Rightarrow> ref list \<Rightarrow> order_result io" where
  "processOrder now orderData items =
     withTransaction (\<lambda>session.
       andThen (findById users_coll (od_userId orderData) None) (\<lambda>user.
         case user of
           None \<Rightarrow> throw NotFound
         | Some _ \<Rightarrow>
       andThen (reserveItems items [] 0) (\<lambda>(inventoryUpdates, totalAmount).
       andThen (createOne orders_coll now
                  \<lparr>createdAt = 0, updatedAt = 0,
                   o_userId = od_userId orderData,
                   o_shippingAddress = od_shippingAddress orderData,
                   o_paymentMethod = od_paymentMethod orderData,
                   o_items = items,
                   o_total = totalAmount,
                   o_status = ''pending'',
                   o_cancelledAt = None,
                   o_cancellationReason = None\<rparr>
                  (Some session)) (\<lambda>order.
       andThen (updateInventory now (fst order) session inventoryUpdates) (\<lambda>_.
       andThen (updateById users_coll now (od_userId orderData)
                  (\<lambda>u. u\<lparr>orderHistory := orderHistory u @ [fst order],
                           totalOrders := totalOrders u + 1,
                           totalSpent := totalSpent u + totalAmount\<rparr>)
                  (Some session)) (\<lambda>_.
       succeed \<lparr>or_success = True,
                or_order = order,
                or_totalAmount = totalAmount,
                or_message = ''Order processed successfully''\<rparr>))))))"

subsection \<open>transferFunds\<close>

record transfer_result =
  tr_success :: bool
  tr_transactionId :: string
  tr_amount :: jsnum
  tr_fromUserId :: id_arg
  tr_toUserId :: id_arg
  tr_timestamp :: time
  tr_message :: string

definition transferFunds ::
  "time \<Rightarrow> id_arg \<Rightarrow> id_arg \<Rightarrow> jsnum \<Rightarrow> string \<Rightarrow> transfer_result io" where
  "transferFunds now fromUserId toUserId amount description =
     withTransaction (\<lambda>session.
       if amount \<le> 0 then throw InvalidAmount
       else
       andThen (findById users_coll fromUserId None) (\<lambda>fromUser.
         case fromUser of
           None \<Rightarrow> throw NotFound
         | Some (_, fromUser) \<Rightarrow>
       andThen (findById users_coll toUserId None) (\<lambda>toUser.
         case toUser of
           None \<Rightarrow> throw NotFound
         | Some _ \<Rightarrow>
       if balance fromUser < amount then throw InsufficientFunds
       else
       let transactionId = toString now;
           timestamp = now
       in
       andThen (updateById users_coll now fromUserId
                  (\<lambda>u. u\<lparr>balance := balance u + (- amount),
                           transactions := transactions u @
                             [\<lparr>le_id = transactionId,
                               le_type = ''debit'',
                               le_amount = - amount,
                               le_toUserId = Some toUserId,
                               le_fromUserId = None,
                               le_description = description,
                               le_timestamp = timestamp,
                               le_status = ''completed''\<rparr>]\<rparr>)
                  (Some session)) (\<lambda>_.
       andThen (updateById users_coll now toUserId
                  (\<lambda>u. u\<lparr>balance := balance u + amount,
                           transactions := transactions u @
                             [\<lparr>le_id = transactionId,
                               le_type = ''credit'',
                               le_amount = amount,
                               le_toUserId = None,
                               le_fromUserId = Some fromUserId,
                               le_description = description,
                               le_timestamp = timestamp,
                               le_status = ''completed''\<rparr>]\<rparr>)
                  (Some session)) (\<lambda>_.
       succeed \<lparr>tr_success = True,
                tr_transactionId = transactionId,
                tr_amount = amount,
                tr_fromUserId = fromUserId,
                tr_toUserId = toUserId,
                tr_timestamp = timestamp,
                tr_message = ''Transfer completed successfully''\<rparr>)))))"

subsection \<open>cancelOrder\<close>

record cancel_result =
  cr_success :: bool
  cr_orderId :: id_arg
  cr_reason :: string
  cr_restoredItems :: nat
  cr_refundAmount :: jsnum
  cr_message :: string

fun restoreInventory :: "time \<Rightarrow> oid \<Rightarrow> session \<Rightarrow> item list \<Rightarrow> unit io" where
  "restoreInventory now orderId session [] = succeed ()"
| "restoreInventory now orderId session (item # items) =
     andThen (updateById products_coll now (i_productId item)
                (\<lambda>p. p\<lparr>stock := stock p + i_quantity item,
                         stockHistory := stockHistory p @
                           [\<lparr>se_orderId = orderId,
                             se_change = i_quantity item,
                             se_timestamp = now,
                             se_reason = ''order_cancelled''\<rparr>]\<rparr>)
                (Some session)) (\<lambda>_.
     restoreInventory now orderId session items)"

definition cancelOrder :: "time \<Rightarrow> id_arg \<Rightarrow> string \<Rightarrow> cancel_result io" where
  "cancelOrder now orderId reason =
     withTransaction (\<lambda>session.
       andThen (findById orders_coll orderId None) (\<lambda>found.
         case found of
           None \<Rightarrow> throw NotFound
         | Some (order_id, order) \<Rightarrow>
       if o_status order = ''cancelled'' then throw AlreadyCancelled
       else if o_status order \<in> set [''shipped'', ''delivered''] then throw NotCancellable
       else
       andThen (restoreInventory now order_id session (o_items order)) (\<lambda>_.
       andThen (updateById orders_coll now orderId
                  (\<lambda>ord. ord\<lparr>o_status := ''cancelled'',
                               o_cancelledAt := Some now,
                               o_cancellationReason := Some reason\<rparr>)
                  (Some session)) (\<lambda>_.
       andThen (updateById users_coll now (o_userId order)
                  (\<lambda>u. u\<lparr>orderHistory := filter (\<lambda>x. x \<noteq> order_id) (orderHistory u),
                           totalOrders := totalOrders u + (- 1),
                           totalSpent := totalSpent u + (- o_total order),
                           cancelledOrders := cancelledOrders u + 1\<rparr>)
                  (Some session)) (\<lambda>_.
       succeed \<lparr>cr_success = True,
                cr_orderId = orderId,
                cr_reason = reason,
                cr_restoredItems = length (o_items order),
                cr_refundAmount = o_total order,
                cr_message = ''Order cancelled and inventory restored''\<rparr>)))))"

subsection \<open>bulkUpdatePrices\<close>

record price_update =
  pu_productId :: id_arg
  pu_newPrice :: jsnum
  pu_reason :: "string option"

record price_change =
  pc_productId :: id_arg
  pc_productName :: string
  pc_oldPrice :: jsnum
  pc_newPrice :: jsnum
  pc_change :: jsnum
  pc_changePercent :: jsnum

record bulk_result =
  br_success :: bool
  br_updatedCount :: nat
  br_results :: "price_change list"
  br_timestamp :: time
  br_message :: string

definition changePercent :: "jsnum \<Rightarrow> jsnum \<Rightarrow> jsnum" where
  "changePercent newPrice oldPrice = ((newPrice - oldPrice) / oldPrice) * Finite 100"

fun updatePrices ::
  "time \<Rightarrow> session \<Rightarrow> price_update list \<Rightarrow> price_change list \<Rightarrow> price_change list io" where
  "updatePrices now session [] results = succeed results"
| "updatePrices now session (update # priceUpdates) results =
     (let productId = pu_productId update;
          newPrice = pu_newPrice update;
          reason = (case pu_reason update of None \<Rightarrow> ''Bulk price update'' | Some r \<Rightarrow> r)
      in
      if newPrice \<le> 0 then throw InvalidPrice
      else
      andThen (findById products_coll productId None) (\<lambda>found.
        case found of
          None \<Rightarrow> throw NotFound
        | Some (_, product) \<Rightarrow>
      let oldPrice = price product
      in
      andThen (updateById products_coll now productId
                 (\<lambda>p. p\<lparr>price := newPrice,
                          priceHistory := priceHistory p @
                            [\<lparr>pe_oldPrice = oldPrice,
                              pe_newPrice = newPrice,
                              pe_change = newPrice - oldPrice,
                              pe_changePercent = changePercent newPrice oldPrice,
                              pe_reason = reason,
                              pe_timestamp = now,
                              pe_updatedBy = ''system''\<rparr>]\<rparr>)
                 (Some session)) (\<lambda>_.
      updatePrices now session priceUpdates
        (results @
           [\<lparr>pc_productId = productId,
             pc_productName = p_name product,
             pc_oldPrice = oldPrice,
             pc_newPrice = newPrice,
             pc_change = newPrice - oldPrice,
             pc_changePercent = changePercent newPrice oldPrice\<rparr>]))))"

definition bulkUpdatePrices :: "time \<Rightarrow> price_update list \<Rightarrow> bulk_result io" where
  "bulkUpdatePrices now priceUpdates =
     withTransaction (\<lambda>session.
       andThen (updatePrices now session priceUpdates []) (\<lambda>results.
       succeed \<lparr>br_success = True,
                br_updatedCount = length results,
                br_results = results,
                br_timestamp = now,
                br_message = ''Bulk price update completed successfully''\<rparr>))"

subsection \<open>createUserWithSetup\<close>

text \<open>
  \<open>initialBalance\<close> and \<open>preferences\<close> may be absent from the settings.
  \<open>profileData\<close> is an open object, spread into the profile after \<open>userId\<close>, so a
  property of that name replaces the link to the user. \<open>createOne\<close> overwrites
  \<open>createdAt\<close> and \<open>updatedAt\<close>, which the record keeps as its stamps, so properties
  of those names are left out of \<open>pr_fields\<close>.
\<close>

record user_data =
  ud_name :: string
  ud_email :: string

record initial_settings =
  initialBalance :: "jsnum option"
  is_preferences :: "(string \<times> string) list option"
  createProfile :: bool
  profileData :: "string \<rightharpoonup> field"

record setup_result =
  sr_success :: bool
  sr_user :: "user doc"
  sr_message :: string

definition createUserWithSetup :: "time \<Rightarrow> user_data \<Rightarrow> initial_settings \<Rightarrow> setup_result io" where
  "createUserWithSetup now userData initialSettings =
     withTransaction (\<lambda>session.
       andThen (createOne users_coll now
                  \<lparr>createdAt = 0, updatedAt = 0,
                   u_name = ud_name userData,
                   u_email = ud_email userData,
                   balance = (case initialBalance initialSettings of
                                None \<Rightarrow> 0
                              | Some b \<Rightarrow> (if truthy b then b else 0)),
                   u_status = ''active'',
                   preferences = (case is_preferences initialSettings of
                                    None \<Rightarrow> []
                                  | Some ps \<Rightarrow> ps),
                   orderHistory = [],
                   transactions = [],
                   totalOrders = 0,
                   totalSpent = 0,
                   cancelledOrders = 0\<rparr>
                  (Some session)) (\<lambda>user.
       andThen (if createProfile initialSettings
                then andThen (createOne profiles_coll now
                                \<lparr>createdAt = 0, updatedAt = 0,
                                 pr_fields =
                                   ([''userId'' \<mapsto> IdField (fst user)] ++
                                      profileData initialSettings) |`
                                   (- {''createdAt'', ''updatedAt''})\<rparr>
                                (Some session)) (\<lambda>_. succeed ())
                else succeed ()) (\<lambda>_.
       andThen (case initialBalance initialSettings of
                  None \<Rightarrow> succeed ()
                | Some b \<Rightarrow>
                    if 0 < b
                    then andThen (updateById users_coll now (IdObject (fst user))
                                    (\<lambda>u. u\<lparr>transactions := transactions u @
                                             [\<lparr>le_id = toString now,
                                               le_type = ''credit'',
                                               le_amount = b,
                                               le_toUserId = None,
                                               le_fromUserId = None,
                                               le_description = ''Initial balance'',
                                               le_timestamp = now,
                                               le_status = ''completed''\<rparr>]\<rparr>)
                                    (Some session)) (\<lambda>_. succeed ())
                    else succeed ()) (\<lambda>_.
       succeed \<lparr>sr_success = True,
                sr_user = user,
                sr_message = ''User created successfully with initial setup''\<rparr>))))"

section \<open>A sample world\<close>

text \<open>
  Three users, four products (one of them priced at 0, one at 49.99) and three orders,
  in the shape of the sample data of \<open>index.js\<close>. The concrete instances below run
  on it. Carol's balance is \<open>2\<close> to the power 53, the first double whose successor is
  2 away.
\<close>

definition alice_id :: oid where "alice_id = ''a00000000000000000000001''"
definition bob_id :: oid where "bob_id = ''b00000000000000000000002''"
definition carol_id :: oid where "carol_id = ''b00000000000000000000003''"
definition laptop_id :: oid where "laptop_id = ''c00000000000000000000001''"
definition mouse_id :: oid where "mouse_id = ''c00000000000000000000002''"
definition sample_id :: oid where "sample_id = ''c00000000000000000000003''"
definition cable_id :: oid where "cable_id = ''c00000000000000000000004''"
definition order1_id :: oid where "order1_id = ''d00000000000000000000001''"
definition order2_id :: oid where "order2_id = ''d00000000000000000000002''"
definition order3_id :: oid where "order3_id = ''d00000000000000000000003''"
definition absent_id :: oid where "absent_id = ''e00000000000000000000009''"

definition alice :: user where
  "alice = \<lparr>createdAt = 1, updatedAt = 1, u_name = ''Alice Johnson'',
            u_email = ''alice@example.com'', balance = Finite 1500, u_status = ''active'',
            preferences = [], orderHistory = [order1_id, order2_id, order3_id],
            transactions = [], totalOrders = Finite 3, totalSpent = Finite 2200, cancelledOrders = 0\<rparr>"

definition bob :: user where
  "bob = \<lparr>createdAt = 1, updatedAt = 1, u_name = ''Bob Smith'',
          u_email = ''bob@example.com'', balance = Finite 750, u_status = ''active'',
          preferences = [], orderHistory = [],
          transactions = [], totalOrders = 0, totalSpent = 0, cancelledOrders = 0\<rparr>"

definition carol :: user where
  "carol = \<lparr>createdAt = 1, updatedAt = 1, u_name = ''Carol Davis'',
            u_email = ''carol@example.com'', balance = Finite 9007199254740992,
            u_status = ''active'', preferences = [], orderHistory = [],
            transactions = [], totalOrders = 0, totalSpent = 0, cancelledOrders = 0\<rparr>"

definition laptop :: product where
  "laptop = \<lparr>createdAt = 1, updatedAt = 1, p_name = ''MacBook Pro'', p_category = ''Laptops'',
             price = Finite 2000, stock = Finite 25, stockHistory = [], priceHistory = []\<rparr>"

definition mouse :: product where
  "mouse = \<lparr>createdAt = 1, updatedAt = 1, p_name = ''Wireless Mouse'',
            p_category = ''Accessories'', price = Finite 50, stock = Finite 5, stockHistory = [],
            priceHistory = []\<rparr>"

definition sample :: product where
  "sample = \<lparr>createdAt = 1, updatedAt = 1, p_name = ''Free Sample'',
             p_category = ''Accessories'', price = 0, stock = Finite 10, stockHistory = [],
             priceHistory = []\<rparr>"

definition cable :: product where
  "cable = \<lparr>createdAt = 1, updatedAt = 1, p_name = ''USB Cable'',
            p_category = ''Accessories'', price = round_double (4999 / 100),
            stock = Finite 100, stockHistory = [], priceHistory = []\<rparr>"

definition order1 :: "item order" where
  "order1 = \<lparr>createdAt = 2, updatedAt = 2, o_userId = IdObject alice_id,
             o_shippingAddress = ''123 Main St'', o_paymentMethod = ''credit_card'',
             o_items = [\<lparr>i_productId = IdObject mouse_id, i_quantity = Finite 2,
                         i_price = Some (Finite 50), i_total = Some (Finite 100)\<rparr>],
             o_total = Finite 100, o_status = ''pending'', o_cancelledAt = None,
             o_cancellationReason = None\<rparr>"

definition order2 :: "item order" where
  "order2 = order1\<lparr>o_status := ''shipped''\<rparr>"

definition order3 :: "item order" where
  "order3 = \<lparr>createdAt = 2, updatedAt = 3, o_userId = IdObject alice_id,
             o_shippingAddress = ''123 Main St'', o_paymentMethod = ''credit_card'',
             o_items = [\<lparr>i_productId = IdObject laptop_id, i_quantity = 1,
                         i_price = Some (Finite 2000), i_total = Some (Finite 2000)\<rparr>],
             o_total = Finite 2000, o_status = ''delivered'', o_cancelledAt = None,
             o_cancellationReason = None\<rparr>"

definition sample_store :: store where
  "sample_store =
     \<lparr>users = [alice_id \<mapsto> alice, bob_id \<mapsto> bob, carol_id \<mapsto> carol],
      orders = [order1_id \<mapsto> order1, order2_id \<mapsto> order2, order3_id \<mapsto> order3],
      products = [laptop_id \<mapsto> laptop, mouse_id \<mapsto> mouse, sample_id \<mapsto> sample,
                  cable_id \<mapsto> cable],
      profiles = Map.empty\<rparr>"

text \<open>
  The caller's item objects: object 0 asks for one laptop, object 1 for two mice,
  object 2 for six mice (one more than the stock), object 3 for a product that the store
  does not have, object 4 for five cables, every other one for one free sample.
\<close>

definition sample_heap :: "ref \<Rightarrow> item" where
  "sample_heap r =
     (if r = 0 then \<lparr>i_productId = IdObject laptop_id, i_quantity = 1,
                      i_price = None, i_total = None\<rparr>
      else if r = 1 then \<lparr>i_productId = IdObject mouse_id, i_quantity = Finite 2,
                           i_price = Some (Finite 45), i_total = None\<rparr>
      else if r = 2 then \<lparr>i_productId = IdObject mouse_id, i_quantity = Finite 6,
                           i_price = None, i_total = None\<rparr>
      else if r = 3 then \<lparr>i_productId = IdObject absent_id, i_quantity = 1,
                           i_price = None, i_total = None\<rparr>
      else if r = 4 then \<lparr>i_productId = IdObject cable_id, i_quantity = Finite 5,
                           i_price = None, i_total = None\<rparr>
      else \<lparr>i_productId = IdObject sample_id, i_quantity = 1,
             i_price = None, i_total = None\<rparr>)"

definition sample_world :: world where
  "sample_world =
     \<lparr>committed = sample_store, working = sample_store, trace = [], next_session = 0,
      idgen = (\<lambda>n. ''f0000000000000000000000'' @ [digit (n mod 10)]), next_id = 0,
      heap = sample_heap\<rparr>"

section \<open>Notions used in the statements\<close>

subsection \<open>The five workflows as one interface\<close>

datatype call =
    ProcessOrder order_data "ref list"
  | TransferFunds id_arg id_arg jsnum string
  | CancelOrder id_arg string
  | BulkUpdatePrices "price_update list"
  | CreateUserWithSetup user_data initial_settings

definition forget :: "'a io \<Rightarrow> unit io" where
  "forget m = (\<lambda>w. case m w of (r, w') \<Rightarrow> (map_sum id (\<lambda>_. ()) r, w'))"

definition invoke :: "time \<Rightarrow> call \<Rightarrow> unit io" where
  "invoke now c =
     (case c of
        ProcessOrder orderData items \<Rightarrow> forget (processOrder now orderData items)
      | TransferFunds fromUserId toUserId amount description \<Rightarrow>
          forget (transferFunds now fromUserId toUserId amount description)
      | CancelOrder orderId reason \<Rightarrow> forget (cancelOrder now orderId reason)
      | BulkUpdatePrices priceUpdates \<Rightarrow> forget (bulkUpdatePrices now priceUpdates)
      | CreateUserWithSetup userData initialSettings \<Rightarrow>
          forget (createUserWithSetup now userData initialSettings))"

subsection \<open>Sessions in the trace\<close>

text \<open>
  \<open>in_session s e\<close>: the event \<open>e\<close> is a call that reached the store from inside a
  workflow of session \<open>s\<close> the way the workflows make them: a write carries \<open>s\<close>, a
  read carries no session. \<open>all_in_session s e\<close> is the stronger reading, under which
  reads carry \<open>s\<close> too.
\<close>

fun in_session :: "session \<Rightarrow> event \<Rightarrow> bool" where
  "in_session s (Access c (FindOne i) opt) = (opt = None)"
| "in_session s (Access c (InsertOne i) opt) = (opt = Some s)"
| "in_session s (Access c (FindOneAndUpdate i) opt) = (opt = Some s)"
| "in_session s (Access c (FindOneAndDelete i) opt) = (opt = Some s)"
| "in_session s _ = False"

fun all_in_session :: "session \<Rightarrow> event \<Rightarrow> bool" where
  "all_in_session s (Access c a opt) = (opt = Some s)"
| "all_in_session s _ = False"

text \<open>
  \<open>scoped P w w'\<close>: from \<open>w\<close> to \<open>w'\<close> the trace grew by one session, opened first,
  committed or aborted and then ended last, with store calls satisfying \<open>P\<close> of that
  session in between.
\<close>

definition scoped :: "(session \<Rightarrow> event \<Rightarrow> bool) \<Rightarrow> world \<Rightarrow> world \<Rightarrow> bool" where
  "scoped P w w' =
     (\<exists>evs fin. trace w' =
          trace w @ StartSession (Session (next_session w)) # evs @
            [fin, EndSession (Session (next_session w))] \<and>
        list_all (P (Session (next_session w))) evs \<and>
        (fin = CommitTransaction (Session (next_session w)) \<or>
         fin = AbortTransaction (Session (next_session w))))"

subsection \<open>Invariants of the steps inside a transaction\<close>

text \<open>\<open>begun w\<close> is the world in which the operations of a transaction start.\<close>

definition begun :: "world \<Rightarrow> world" where
  "begun w =
     (logged (StartSession (Session (next_session w)))
        (w\<lparr>next_session := Suc (next_session w)\<rparr>))\<lparr>working := committed w\<rparr>"

definition grows :: "(oid \<rightharpoonup> user) \<Rightarrow> (oid \<rightharpoonup> user) \<Rightarrow> bool" where
  "grows m m' =
     (\<forall>i u. m i = Some u \<longrightarrow>
        (\<exists>u' ys. m' i = Some u' \<and> orderHistory u' = orderHistory u @ ys))"

definition steps :: "bool \<Rightarrow> session \<Rightarrow> world \<Rightarrow> world \<Rightarrow> bool" where
  "steps h s w w' \<longleftrightarrow>
     committed w' = committed w \<and>
     (\<exists>evs. trace w' = trace w @ evs \<and> list_all (in_session s) evs) \<and>
     (h \<longrightarrow> grows (users (working w)) (users (working w')))"

definition preserves :: "(world \<Rightarrow> world \<Rightarrow> bool) \<Rightarrow> 'a io \<Rightarrow> bool" where
  "preserves R m = (\<forall>w. R w (snd (m w)))"

definition others_kept :: "world \<Rightarrow> world \<Rightarrow> bool" where
  "others_kept w w' \<longleftrightarrow>
     committed w' = committed w \<and> users (working w') = users (working w) \<and>
     orders (working w') = orders (working w) \<and> profiles (working w') = profiles (working w) \<and>
     heap w' = heap w \<and> idgen w' = idgen w \<and> next_id w' = next_id w \<and>
     next_session w' = next_session w"

subsection \<open>What an item asks for\<close>

text \<open>
  \<open>requested w r\<close> is the product that the item object \<open>r\<close> names, as the committed
  store has it; \<open>overstocked\<close>, \<open>lineTotal\<close>, \<open>priced\<close> and \<open>planned\<close> are the test,
  the amount, the rewritten item and the planned update that one round of the loop of
  \<open>processOrder\<close> derives from it. \<open>targets pid a\<close>: the identifier \<open>a\<close> denotes
  \<open>pid\<close>.
\<close>

definition requested :: "world \<Rightarrow> ref \<Rightarrow> product doc option" where
  "requested w r =
     (case toObjectId (i_productId (heap w r)) of
        Inl e \<Rightarrow> None
      | Inr pid \<Rightarrow> map_option (Pair pid) (products (committed w) pid))"

definition overstocked :: "world \<Rightarrow> ref \<Rightarrow> bool" where
  "overstocked w r =
     (case requested w r of None \<Rightarrow> False | Some (pid, p) \<Rightarrow> stock p < i_quantity (heap w r))"

definition lineTotal :: "world \<Rightarrow> ref \<Rightarrow> jsnum" where
  "lineTotal w r =
     (case requested w r of None \<Rightarrow> 0 | Some (pid, p) \<Rightarrow> price p * i_quantity (heap w r))"

definition priced :: "world \<Rightarrow> ref \<Rightarrow> item" where
  "priced w r =
     (case requested w r of
        None \<Rightarrow> heap w r
      | Some (pid, p) \<Rightarrow>
          (heap w r)\<lparr>i_price := Some (price p), i_total := Some (price p * i_quantity (heap w r))\<rparr>)"

definition planned :: "world \<Rightarrow> ref \<Rightarrow> inventory_update" where
  "planned w r =
     \<lparr>iu_productId = i_productId (heap w r),
      quantityToReduce = i_quantity (heap w r),
      currentStock = (case requested w r of None \<Rightarrow> 0 | Some (pid, p) \<Rightarrow> stock p)\<rparr>"

definition targets :: "oid \<Rightarrow> id_arg \<Rightarrow> bool" where
  "targets pid a = (toObjectId a = Inr pid)"

definition after_item :: "world \<Rightarrow> ref \<Rightarrow> world" where
  "after_item w r =
     (case requested w r of
        None \<Rightarrow> w
      | Some (pid, p) \<Rightarrow>
          (logged (Access ''products'' (FindOne pid) None) w)\<lparr>heap := (heap w)(r := priced w r)\<rparr>)"

subsection \<open>The buyer of an order\<close>

definition buyer_of :: "world \<Rightarrow> id_arg \<Rightarrow> oid option" where
  "buyer_of w orderId =
     (case toObjectId orderId of
        Inl e \<Rightarrow> None
      | Inr oid \<Rightarrow>
          (case orders (committed w) oid of
             None \<Rightarrow> None
           | Some ord \<Rightarrow>
               (case toObjectId (o_userId ord) of Inl e \<Rightarrow> None | Inr b \<Rightarrow> Some b)))"

section \<open>Numbers\<close>

lemma less_not_less_eq [simp]: "(a :: jsnum) < b \<Longrightarrow> \<not> b \<le> a"
  by (simp add: less_eq_jsnum_def)


lemmas js_compare = less_jsnum_def less_eq_jsnum_def zero_jsnum_def one_jsnum_def

lemmas js_arith =
  plus_jsnum_def uminus_jsnum_def minus_jsnum_def times_jsnum_def divide_jsnum_def
  inverse_jsnum_def isZero_def signed_zero_def signed_infinity_def round_double_def
  floor_log2_def two_to_def round_half_even_def log2_nat.simps

text \<open>The literals 0.1 and 0.2 add up to 0.30000000000000004, which is not the literal 0.3.\<close>

lemma tenth_plus_fifth:
  "round_double (1 / 10) + round_double (2 / 10) = Finite (1351079888211149 / 4503599627370496)"
  "round_double (3 / 10) = Finite (5404319552844595 / 18014398509481984)"
  by (simp_all add: js_arith)

text \<open>
  The rounding leaves the whole numbers up to \<open>2\<close> to the power 53 as they are, so sums
  and differences of whole amounts within that range are exact.
\<close>

lemma log2_nat_bounds: "0 < n \<Longrightarrow> 2 ^ log2_nat n \<le> n \<and> n < 2 ^ Suc (log2_nat n)"
proof (induction n rule: log2_nat.induct)
  case (1 n)
  show ?case
  proof (cases "n < 2")
    case True
    with 1(2) show ?thesis by (simp add: log2_nat.simps)
  next
    case False
    then have "0 < n div 2" by simp
    with 1(1) False have ih: "2 ^ log2_nat (n div 2) \<le> n div 2" "n div 2 < 2 ^ Suc (log2_nat (n div 2))"
      by simp_all
    have l: "log2_nat n = Suc (log2_nat (n div 2))" using False by (subst log2_nat.simps) simp
    from ih show ?thesis unfolding l by (simp; linarith)
  qed
qed

lemma round_half_even_of_int: "round_half_even (of_int m) = m"
  by (simp add: round_half_even_def)

lemma round_double_nat:
  assumes "0 < n" and "n \<le> 2 ^ 53"
  shows "round_double (real n) = Finite (real n)"
proof -
  define e where "e = log2_nat n"
  from log2_nat_bounds [OF assms(1)] have b: "2 ^ e \<le> n" "n < 2 ^ Suc e" by (simp_all add: e_def)
  from b(1) assms(2) have p: "(2 :: nat) ^ e \<le> 2 ^ 53" by linarith
  have one: "(1 :: nat) < 2" by simp
  from power_le_imp_le_exp [OF one p] have e53: "e \<le> 53" .
  have fl: "floor_log2 (real n) = int e"
    using assms(1) by (simp add: floor_log2_def e_def)
  have mx: "max (int e) (- 1022) = int e" by simp
  have big: "real n < two_to 1024"
  proof -
    have "real n \<le> 2 ^ 53" using assms(2) by (metis of_nat_le_iff of_nat_numeral of_nat_power)
    also have "\<dots> < (2 :: real) ^ 1024" by (rule power_strict_increasing) simp_all
    finally show ?thesis by (simp add: two_to_def)
  qed
  have "\<exists>m. real n / two_to (int e - 52) = of_int m"
  proof (cases "e \<le> 52")
    case True
    then have "two_to (int e - 52) = 1 / 2 ^ (52 - e)"
      by (auto simp: two_to_def nat_diff_distrib)
    then have "real n / two_to (int e - 52) = of_int (int n * 2 ^ (52 - e))" by simp
    then show ?thesis by blast
  next
    case False
    with e53 have e: "e = 53" by simp
    with b(1) assms(2) have n: "n = 2 ^ 53" by simp
    have "two_to (int e - 52) = 2" by (simp add: e two_to_def)
    then have "real n / two_to (int e - 52) = of_int (2 ^ 52)" by (simp add: n)
    then show ?thesis by blast
  qed
  then obtain m where m: "real n / two_to (int e - 52) = of_int m" by blast
  have pos: "0 < two_to (int e - 52)" by (simp add: two_to_def)
  then have r: "of_int m * two_to (int e - 52) = real n"
    using m by (metis less_numeral_extra(3) nonzero_divide_eq_eq)
  from assms(1) have nz: "real n \<noteq> 0" "\<not> real n < 0" by simp_all
  have q: "round_half_even (real n / two_to (int e - 52)) = m"
    by (simp only: m round_half_even_of_int)
  have "round_double (real n) =
          (if two_to 1024 \<le> real n then PosInfinity
           else if real n = 0 then Finite 0 else Finite (real n))"
    using nz by (simp only: round_double_def Let_def fl mx q r abs_of_nat if_False)
  with nz big show ?thesis by simp
qed

lemma plus_whole_exact:
  assumes "a + b \<le> 2 ^ 53"
  shows "Finite (real a) + Finite (real b) = Finite (real (a + b))"
proof (cases "a + b = 0")
  case True
  then show ?thesis by (simp add: plus_jsnum_def round_double_def)
next
  case False
  then have "0 < a + b" by simp
  from round_double_nat [OF this assms] show ?thesis
    by (simp add: plus_jsnum_def)
qed

lemma minus_whole_exact:
  assumes "b \<le> a" and "a \<le> 2 ^ 53"
  shows "Finite (real a) - Finite (real b) = Finite (real (a - b))"
proof (cases "a - b = 0")
  case True
  with assms(1) show ?thesis
    by (simp add: minus_jsnum_def plus_jsnum_def uminus_jsnum_def round_double_def)
next
  case False
  then have p: "0 < a - b" by simp
  from assms have "a - b \<le> 2 ^ 53" by simp
  from round_double_nat [OF p this] assms(1) show ?thesis
    by (cases "b = 0") (simp_all add: minus_jsnum_def plus_jsnum_def uminus_jsnum_def of_nat_diff)
qed

section \<open>Composition of steps\<close>

lemma andThen_Inr: "m w = (Inr x, w') \<Longrightarrow> andThen m f w = f x w'"
  by (simp add: andThen_def)

lemma andThen_Inl: "m w = (Inl e, w') \<Longrightarrow> andThen m f w = (Inl e, w')"
  by (simp add: andThen_def)

lemma withTransaction_eq:
  "withTransaction operations w =
     (case operations (Session (next_session w)) (begun w) of
        (Inr result, w') \<Rightarrow>
          (Inr result,
           endSession (Session (next_session w))
             (logged (CommitTransaction (Session (next_session w))) (w'\<lparr>committed := working w'\<rparr>)))
      | (Inl e, w') \<Rightarrow>
          (Inl e,
           endSession (Session (next_session w))
             (logged (AbortTransaction (Session (next_session w))) (w'\<lparr>working := committed w'\<rparr>))))"
  by (simp add: withTransaction_def startSession_def session_withTransaction_def begun_def
      logged_def split: prod.splits sum.splits)

lemma grows_refl: "grows m m"
  by (simp add: grows_def)

lemma grows_trans: "grows a b \<Longrightarrow> grows b c \<Longrightarrow> grows a c"
  unfolding grows_def by (metis append.assoc)

lemma steps_refl: "steps h s w w"
  by (simp add: steps_def grows_refl)

lemma steps_trans: "steps h s a b \<Longrightarrow> steps h s b c \<Longrightarrow> steps h s a c"
  unfolding steps_def
  by (auto intro: grows_trans)

lemma others_kept_refl: "others_kept w w"
  by (simp add: others_kept_def)

lemma others_kept_trans: "others_kept a b \<Longrightarrow> others_kept b c \<Longrightarrow> others_kept a c"
  by (simp add: others_kept_def)

lemma preserves_succeed: "preserves (steps h s) (succeed x)"
  by (simp add: preserves_def succeed_def steps_refl)

lemma preserves_throw: "preserves (steps h s) (throw e)"
  by (simp add: preserves_def throw_def steps_refl)

lemma preserves_andThen:
  assumes "preserves (steps h s) m" and "\<And>x. preserves (steps h s) (f x)"
  shows "preserves (steps h s) (andThen m f)"
  unfolding preserves_def
proof
  fix w
  show "steps h s w (snd (andThen m f w))"
  proof (cases "m w")
    case (Pair r w1)
    from assms(1) Pair have a: "steps h s w w1"
      unfolding preserves_def by (metis snd_conv)
    show ?thesis
    proof (cases r)
      case (Inl e)
      with Pair a show ?thesis by (simp add: andThen_def)
    next
      case (Inr x)
      from assms(2) have "steps h s w1 (snd (f x w1))"
        unfolding preserves_def by blast
      with Pair Inr a show ?thesis
        by (auto simp: andThen_def intro: steps_trans)
    qed
  qed
qed

section \<open>The repository calls of the workflows, as steps\<close>

lemma preserves_findById: "preserves (steps h s) (findById c a None)"
  by (auto simp: preserves_def findById_def findOne_def logged_def throw_def steps_def grows_refl
      view_def split: sum.split)

lemma preserves_readItem: "preserves (steps h s) (readItem r)"
  by (simp add: preserves_def readItem_def steps_refl)

lemma preserves_writeItem: "preserves (steps h s) (writeItem r it)"
  by (simp add: preserves_def writeItem_def steps_def grows_refl)

lemma preserves_update_products:
  "preserves (steps h s) (updateById products_coll now a f (Some s))"
  by (auto simp: preserves_def updateById_def findOneAndUpdate_def logged_def throw_def steps_def
      grows_refl modify_def view_def products_coll_def Let_def
      split: sum.split option.split)

lemma preserves_update_orders:
  "preserves (steps h s) (updateById orders_coll now a f (Some s))"
  by (auto simp: preserves_def updateById_def findOneAndUpdate_def logged_def throw_def steps_def
      grows_refl modify_def view_def orders_coll_def Let_def
      split: sum.split option.split)

lemma preserves_update_users:
  assumes "h \<Longrightarrow> \<forall>u. \<exists>ys. orderHistory (f u) = orderHistory u @ ys"
  shows "preserves (steps h s) (updateById users_coll now a f (Some s))"
  using assms
  by (auto simp: preserves_def updateById_def findOneAndUpdate_def logged_def throw_def steps_def
      grows_def modify_def view_def users_coll_def Let_def
      split: sum.split option.split)

lemma preserves_create_orders:
  "preserves (steps h s) (createOne orders_coll now d (Some s))"
  by (auto simp: preserves_def createOne_def insertOne_def andThen_def succeed_def logged_def
      throw_def steps_def grows_refl modify_def view_def orders_coll_def Let_def)

lemma preserves_create_profiles:
  "preserves (steps h s) (createOne profiles_coll now d (Some s))"
  by (auto simp: preserves_def createOne_def insertOne_def andThen_def succeed_def logged_def
      throw_def steps_def grows_refl modify_def view_def profiles_coll_def Let_def
      split: option.split field.split)

lemma preserves_create_users:
  "preserves (steps h s) (createOne users_coll now d (Some s))"
  by (auto simp: preserves_def createOne_def insertOne_def andThen_def succeed_def logged_def
      throw_def steps_def grows_def modify_def view_def users_coll_def Let_def)

lemmas preserves_intros =
  preserves_succeed preserves_throw preserves_andThen preserves_findById preserves_readItem
  preserves_writeItem preserves_update_products preserves_update_orders
  preserves_create_orders preserves_create_profiles preserves_create_users

lemma preserves_reserveItems: "preserves (steps h s) (reserveItems rs ups tot)"
proof (induction rs arbitrary: ups tot)
  case Nil
  show ?case by (simp add: preserves_succeed)
next
  case (Cons r rs)
  show ?case
    by (auto intro!: preserves_intros Cons.IH simp: Let_def split: option.split prod.split)
qed

lemma preserves_updateInventory: "preserves (steps h s) (updateInventory now oid s ups)"
  by (induction ups) (auto intro!: preserves_intros)

lemma preserves_restoreInventory: "preserves (steps h s) (restoreInventory now oid s its)"
  by (induction its) (auto intro!: preserves_intros)

lemma preserves_updatePrices: "preserves (steps h s) (updatePrices now s ups results)"
proof (induction ups arbitrary: results)
  case Nil
  show ?case by (simp add: preserves_succeed)
next
  case (Cons u ups)
  show ?case
    by (auto intro!: preserves_intros Cons.IH simp: Let_def split: option.split prod.split)
qed

lemmas preserves_loops =
  preserves_reserveItems preserves_updateInventory preserves_restoreInventory
  preserves_updatePrices

section \<open>Transactions\<close>

lemma begun_steps:
  assumes "preserves (steps h (Session (next_session w))) (body (Session (next_session w)))"
  shows "steps h (Session (next_session w)) (begun w) (snd (body (Session (next_session w)) (begun w)))"
  using assms unfolding preserves_def by blast

lemma withTransaction_aborts:
  assumes "\<And>s. preserves (steps h s) (body s)"
    and "fst (withTransaction body w) = Inl e"
  shows "committed (snd (withTransaction body w)) = committed w"
proof -
  have "steps h (Session (next_session w)) (begun w) (snd (body (Session (next_session w)) (begun w)))"
    by (rule begun_steps) (rule assms(1))
  then have "committed (snd (body (Session (next_session w)) (begun w))) = committed w"
    by (simp add: steps_def begun_def logged_def)
  with assms(2) show ?thesis
    by (auto simp: withTransaction_eq endSession_def logged_def split: prod.splits sum.splits)
qed

lemma withTransaction_scoped:
  assumes "\<And>s. preserves (steps h s) (body s)"
  shows "scoped in_session w (snd (withTransaction body w))"
proof -
  have "steps h (Session (next_session w)) (begun w) (snd (body (Session (next_session w)) (begun w)))"
    by (rule begun_steps) (rule assms(1))
  then obtain evs where
    "trace (snd (body (Session (next_session w)) (begun w))) =
       trace w @ StartSession (Session (next_session w)) # evs"
    and "list_all (in_session (Session (next_session w))) evs"
    by (auto simp: steps_def begun_def logged_def)
  then show ?thesis
    by (auto simp: scoped_def withTransaction_eq endSession_def logged_def
        split: prod.splits sum.splits)
qed

lemma withTransaction_grows:
  assumes "\<And>s. preserves (steps True s) (body s)"
  shows "grows (users (committed w)) (users (committed (snd (withTransaction body w))))"
proof -
  have "steps True (Session (next_session w)) (begun w) (snd (body (Session (next_session w)) (begun w)))"
    by (rule begun_steps) (rule assms(1))
  then have "committed (snd (body (Session (next_session w)) (begun w))) = committed w"
      and "grows (users (committed w)) (users (working (snd (body (Session (next_session w)) (begun w)))))"
    by (simp_all add: steps_def begun_def logged_def)
  then show ?thesis
    by (auto simp: withTransaction_eq endSession_def logged_def grows_refl
        split: prod.splits sum.splits)
qed

section \<open>The five workflows\<close>


lemma processOrder_aborts:
  "fst (processOrder now od items w) = Inl e \<Longrightarrow>
   committed (snd (processOrder now od items w)) = committed w"
  unfolding processOrder_def
  by (rule withTransaction_aborts [where h = False])
     (auto intro!: preserves_intros preserves_loops preserves_update_users
        simp: Let_def split: option.split prod.split)

lemma transferFunds_aborts:
  "fst (transferFunds now a b amt d w) = Inl e \<Longrightarrow>
   committed (snd (transferFunds now a b amt d w)) = committed w"
  unfolding transferFunds_def
  by (rule withTransaction_aborts [where h = False])
     (auto intro!: preserves_intros preserves_loops preserves_update_users
        simp: Let_def split: option.split prod.split)

lemma cancelOrder_aborts:
  "fst (cancelOrder now a r w) = Inl e \<Longrightarrow>
   committed (snd (cancelOrder now a r w)) = committed w"
  unfolding cancelOrder_def
  by (rule withTransaction_aborts [where h = False])
     (auto intro!: preserves_intros preserves_loops preserves_update_users
        simp: Let_def split: option.split prod.split)

lemma bulkUpdatePrices_aborts:
  "fst (bulkUpdatePrices now ups w) = Inl e \<Longrightarrow>
   committed (snd (bulkUpdatePrices now ups w)) = committed w"
  unfolding bulkUpdatePrices_def
  by (rule withTransaction_aborts [where h = False])
     (auto intro!: preserves_intros preserves_loops preserves_update_users
        simp: Let_def split: option.split prod.split)

lemma createUserWithSetup_aborts:
  "fst (createUserWithSetup now ud st w) = Inl e \<Longrightarrow>
   committed (snd (createUserWithSetup now ud st w)) = committed w"
  unfolding createUserWithSetup_def
  by (rule withTransaction_aborts [where h = False])
     (auto intro!: preserves_intros preserves_loops preserves_update_users
        simp: Let_def split: option.split prod.split)

lemma processOrder_scoped: "scoped in_session w (snd (processOrder now od items w))"
  unfolding processOrder_def
  by (rule withTransaction_scoped [where h = False])
     (auto intro!: preserves_intros preserves_loops preserves_update_users
        simp: Let_def split: option.split prod.split)

lemma transferFunds_scoped: "scoped in_session w (snd (transferFunds now a b amt d w))"
  unfolding transferFunds_def
  by (rule withTransaction_scoped [where h = False])
     (auto intro!: preserves_intros preserves_loops preserves_update_users
        simp: Let_def split: option.split prod.split)

lemma cancelOrder_scoped: "scoped in_session w (snd (cancelOrder now a r w))"
  unfolding cancelOrder_def
  by (rule withTransaction_scoped [where h = False])
     (auto intro!: preserves_intros preserves_loops preserves_update_users
        simp: Let_def split: option.split prod.split)

lemma bulkUpdatePrices_scoped: "scoped in_session w (snd (bulkUpdatePrices now ups w))"
  unfolding bulkUpdatePrices_def
  by (rule withTransaction_scoped [where h = False])
     (auto intro!: preserves_intros preserves_loops preserves_update_users
        simp: Let_def split: option.split prod.split)

lemma createUserWithSetup_scoped:
  "scoped in_session w (snd (createUserWithSetup now ud st w))"
  unfolding createUserWithSetup_def
  by (rule withTransaction_scoped [where h = False])
     (auto intro!: preserves_intros preserves_loops preserves_update_users
        simp: Let_def split: option.split prod.split)

lemma processOrder_grows:
  "grows (users (committed w)) (users (committed (snd (processOrder now od items w))))"
  unfolding processOrder_def
  by (rule withTransaction_grows)
     (auto intro!: preserves_intros preserves_loops preserves_update_users
        simp: Let_def split: option.split prod.split)

lemma transferFunds_grows:
  "grows (users (committed w)) (users (committed (snd (transferFunds now a b amt d w))))"
  unfolding transferFunds_def
  by (rule withTransaction_grows)
     (auto intro!: preserves_intros preserves_loops preserves_update_users
        simp: Let_def split: option.split prod.split)

lemma bulkUpdatePrices_grows:
  "grows (users (committed w)) (users (committed (snd (bulkUpdatePrices now ups w))))"
  unfolding bulkUpdatePrices_def
  by (rule withTransaction_grows)
     (auto intro!: preserves_intros preserves_loops preserves_update_users
        simp: Let_def split: option.split prod.split)

lemma createUserWithSetup_grows:
  "grows (users (committed w)) (users (committed (snd (createUserWithSetup now ud st w))))"
  unfolding createUserWithSetup_def
  by (rule withTransaction_grows)
     (auto intro!: preserves_intros preserves_loops preserves_update_users
        simp: Let_def split: option.split prod.split)

lemma snd_forget [simp]: "snd (forget m w) = snd (m w)"
  by (simp add: forget_def split: prod.splits)

lemma fst_forget_Inl [simp]: "fst (forget m w) = Inl e \<longleftrightarrow> fst (m w) = Inl e"
  by (cases "m w"; cases "fst (m w)") (auto simp: forget_def)

lemma invoke_aborts:
  "fst (invoke now c w) = Inl e \<Longrightarrow> committed (snd (invoke now c w)) = committed w"
  by (cases c)
     (simp_all add: invoke_def processOrder_aborts transferFunds_aborts cancelOrder_aborts
        bulkUpdatePrices_aborts createUserWithSetup_aborts)

lemma invoke_scoped: "scoped in_session w (snd (invoke now c w))"
  by (cases c)
     (simp_all add: invoke_def processOrder_scoped transferFunds_scoped cancelOrder_scoped
        bulkUpdatePrices_scoped createUserWithSetup_scoped)

section \<open>Single repository calls\<close>

lemma findById_committed:
  "toObjectId a = Inr i \<Longrightarrow>
   findById c a None w =
     (Inr (map_option (Pair i) (cget c (committed w) i)),
      logged (Access (cname c) (FindOne i) None) w)"
  by (simp add: findById_def findOne_def view_def)

lemma logged_fields [simp]:
  "committed (logged e w) = committed w" "working (logged e w) = working w"
  "heap (logged e w) = heap w" "idgen (logged e w) = idgen w"
  "next_id (logged e w) = next_id w" "next_session (logged e w) = next_session w"
  "trace (logged e w) = trace w @ [e]"
  by (simp_all add: logged_def)

lemma begun_fields [simp]:
  "committed (begun w) = committed w" "working (begun w) = committed w"
  "heap (begun w) = heap w" "idgen (begun w) = idgen w"
  "next_id (begun w) = next_id w" "next_session (begun w) = Suc (next_session w)"
  "trace (begun w) = trace w @ [StartSession (Session (next_session w))]"
  by (simp_all add: begun_def)

lemma updateById_products_effect:
  assumes "toObjectId a = Inr i"
  shows "\<exists>r w'. updateById products_coll now a f (Some s) w = (Inr r, w') \<and>
          others_kept w w' \<and>
          products (working w') =
            (case products (working w) i of
               None \<Rightarrow> products (working w)
             | Some d \<Rightarrow> (products (working w))(i \<mapsto> (f d)\<lparr>updatedAt := now\<rparr>))"
  using assms
  by (auto simp: updateById_def findOneAndUpdate_def logged_def throw_def others_kept_def
      modify_def view_def products_coll_def Let_def split: sum.split option.split)

lemma updateById_products_kept:
  "others_kept w (snd (updateById products_coll now a f (Some s) w))"
  by (auto simp: updateById_def findOneAndUpdate_def logged_def throw_def others_kept_def
      modify_def view_def products_coll_def Let_def split: sum.split option.split)

lemma updateById_users_effect:
  assumes "toObjectId a = Inr i"
  shows "\<exists>r w'. updateById users_coll now a f (Some s) w = (Inr r, w') \<and>
          committed w' = committed w \<and> heap w' = heap w \<and>
          orders (working w') = orders (working w) \<and>
          products (working w') = products (working w) \<and>
          profiles (working w') = profiles (working w) \<and>
          users (working w') =
            (case users (working w) i of
               None \<Rightarrow> users (working w)
             | Some d \<Rightarrow> (users (working w))(i \<mapsto> (f d)\<lparr>updatedAt := now\<rparr>))"
  using assms
  by (auto simp: updateById_def findOneAndUpdate_def logged_def throw_def
      modify_def view_def users_coll_def Let_def split: sum.split option.split)

lemma updateById_orders_effect:
  assumes "toObjectId a = Inr i"
  shows "\<exists>r w'. updateById orders_coll now a f (Some s) w = (Inr r, w') \<and>
          committed w' = committed w \<and> heap w' = heap w \<and>
          users (working w') = users (working w) \<and>
          products (working w') = products (working w) \<and>
          profiles (working w') = profiles (working w) \<and>
          orders (working w') =
            (case orders (working w) i of
               None \<Rightarrow> orders (working w)
             | Some d \<Rightarrow> (orders (working w))(i \<mapsto> (f d)\<lparr>updatedAt := now\<rparr>))"
  using assms
  by (auto simp: updateById_def findOneAndUpdate_def logged_def throw_def
      modify_def view_def orders_coll_def Let_def split: sum.split option.split)

lemma createOne_orders_effect:
  assumes "orders (working w) (idgen w (next_id w)) = None"
  shows "\<exists>w'. createOne orders_coll now d (Some s) w =
                 (Inr (idgen w (next_id w), d\<lparr>createdAt := now, updatedAt := now\<rparr>), w') \<and>
          committed w' = committed w \<and> heap w' = heap w \<and>
          users (working w') = users (working w) \<and>
          products (working w') = products (working w) \<and>
          profiles (working w') = profiles (working w) \<and>
          orders (working w') =
            (orders (working w))(idgen w (next_id w) \<mapsto>
               serialize_order (heap w) (d\<lparr>createdAt := now, updatedAt := now\<rparr>))"
  using assms
  by (auto simp: createOne_def insertOne_def andThen_def succeed_def logged_def
      throw_def modify_def view_def orders_coll_def Let_def)

section \<open>The loop over the items of processOrder\<close>

lemma requested_cong:
  "heap w' = heap w \<Longrightarrow> committed w' = committed w \<Longrightarrow> requested w' = requested w"
  by (rule ext) (simp add: requested_def split: sum.splits)

lemma overstocked_cong:
  "heap w' = heap w \<Longrightarrow> committed w' = committed w \<Longrightarrow> overstocked w' x = overstocked w x"
  using requested_cong [of w' w] by (simp add: overstocked_def fun_eq_iff split: option.splits)

lemma lineTotal_cong:
  "heap w' = heap w \<Longrightarrow> committed w' = committed w \<Longrightarrow> lineTotal w' x = lineTotal w x"
  using requested_cong [of w' w] by (simp add: lineTotal_def fun_eq_iff split: option.splits)

lemma priced_cong:
  "heap w' = heap w \<Longrightarrow> committed w' = committed w \<Longrightarrow> priced w' x = priced w x"
  using requested_cong [of w' w] by (simp add: priced_def fun_eq_iff split: option.splits)

lemma planned_cong:
  "heap w' = heap w \<Longrightarrow> committed w' = committed w \<Longrightarrow> planned w' x = planned w x"
  using requested_cong [of w' w] by (simp add: planned_def fun_eq_iff split: option.splits)

lemma reserveItems_step:
  assumes "requested w r \<noteq> None" and "\<not> overstocked w r"
  shows "reserveItems (r # rs) ups tot w =
           reserveItems rs (ups @ [planned w r]) (tot + lineTotal w r) (after_item w r)"
  using assms
  by (auto simp: requested_def overstocked_def lineTotal_def priced_def planned_def after_item_def
      andThen_def readItem_def writeItem_def findById_def findOne_def logged_def view_def
      products_coll_def throw_def Let_def
      split: sum.splits option.splits)

lemma reserveItems_missing:
  assumes "requested w r = None"
  shows "\<exists>e. fst (reserveItems (r # rs) ups tot w) = Inl e \<and> e \<noteq> OutOfStock"
  using assms
  by (auto simp: requested_def andThen_def readItem_def findById_def findOne_def logged_def
      view_def products_coll_def throw_def toObjectId_def
      split: sum.splits option.splits id_arg.splits if_splits)

lemma reserveItems_short:
  assumes "overstocked w r"
  shows "fst (reserveItems (r # rs) ups tot w) = Inl OutOfStock"
  using assms
  by (auto simp: requested_def overstocked_def andThen_def readItem_def findById_def
      findOne_def logged_def view_def products_coll_def throw_def
      split: sum.splits option.splits)

lemma requested_after_item [simp]: "requested (after_item w r) x = requested w x"
  by (auto simp: after_item_def requested_def priced_def logged_def split: sum.splits option.splits)

lemma quantity_after_item [simp]:
  "i_quantity (heap (after_item w r) x) = i_quantity (heap w x)"
  by (auto simp: after_item_def requested_def priced_def logged_def split: sum.splits option.splits)

lemma productId_after_item [simp]:
  "i_productId (heap (after_item w r) x) = i_productId (heap w x)"
  by (auto simp: after_item_def requested_def priced_def logged_def split: sum.splits option.splits)

lemma overstocked_after_item [simp]: "overstocked (after_item w r) x = overstocked w x"
  by (simp add: overstocked_def split: option.splits)

lemma lineTotal_after_item [simp]: "lineTotal (after_item w r) x = lineTotal w x"
  by (simp add: lineTotal_def split: option.splits)

lemma planned_after_item [simp]: "planned (after_item w r) x = planned w x"
  by (simp add: planned_def)

lemma priced_after_item [simp]:
  "priced (after_item w r) x = (if x = r then priced w r else priced w x)"
  by (auto simp: after_item_def requested_def priced_def logged_def split: sum.splits option.splits)

lemma lineTotal_after_item_fun [simp]: "lineTotal (after_item w r) = lineTotal w"
  by (rule ext) simp

lemma planned_after_item_fun [simp]: "planned (after_item w r) = planned w"
  by (rule ext) simp

lemma heap_after_item:
  "requested w r \<noteq> None \<Longrightarrow> heap (after_item w r) = (heap w)(r := priced w r)"
  by (auto simp: after_item_def)

lemma rest_after_item [simp]:
  "committed (after_item w r) = committed w" "working (after_item w r) = working w"
  "idgen (after_item w r) = idgen w" "next_id (after_item w r) = next_id w"
  "next_session (after_item w r) = next_session w"
  by (auto simp: after_item_def logged_def split: option.splits)

lemma reserveItems_ok:
  assumes "\<forall>r\<in>set items. requested w r \<noteq> None \<and> \<not> overstocked w r"
  shows "\<exists>w'. reserveItems items ups tot w =
                 (Inr (ups @ map (planned w) items, foldl (+) tot (map (lineTotal w) items)), w') \<and>
               committed w' = committed w \<and> working w' = working w \<and> idgen w' = idgen w \<and>
               next_id w' = next_id w \<and> next_session w' = next_session w \<and>
               heap w' = (\<lambda>x. if x \<in> set items then priced w x else heap w x)"
  using assms
proof (induction items arbitrary: w ups tot)
  case Nil
  show ?case by (simp add: succeed_def)
next
  case (Cons r rs)
  from Cons.prems have r: "requested w r \<noteq> None" "\<not> overstocked w r" by simp_all
  from Cons.prems
  have "\<forall>x\<in>set rs. requested (after_item w r) x \<noteq> None \<and> \<not> overstocked (after_item w r) x"
    by simp
  from Cons.IH [OF this, of "ups @ [planned w r]" "tot + lineTotal w r"]
  obtain w' where w':
    "reserveItems rs (ups @ [planned w r]) (tot + lineTotal w r) (after_item w r) =
      (Inr ((ups @ [planned w r]) @ map (planned (after_item w r)) rs,
            foldl (+) (tot + lineTotal w r) (map (lineTotal (after_item w r)) rs)), w')"
    "committed w' = committed (after_item w r)" "working w' = working (after_item w r)"
    "idgen w' = idgen (after_item w r)" "next_id w' = next_id (after_item w r)"
    "next_session w' = next_session (after_item w r)"
    "heap w' = (\<lambda>x. if x \<in> set rs then priced (after_item w r) x else heap (after_item w r) x)"
    by blast
  have h: "heap w' = (\<lambda>x. if x \<in> set (r # rs) then priced w x else heap w x)"
    using w'(7) r(1) by (auto simp: heap_after_item fun_eq_iff)
  show ?case
    using w'(1-6) h by (simp add: reserveItems_step [OF r] del: reserveItems.simps)
qed


lemma reserveItems_Inr:
  assumes "reserveItems items ups tot w = (Inr x, w')"
  shows "\<forall>r\<in>set items. requested w r \<noteq> None \<and> \<not> overstocked w r"
  using assms
proof (induction items arbitrary: w ups tot)
  case Nil
  show ?case by simp
next
  case (Cons r rs)
  have a: "requested w r \<noteq> None"
  proof
    assume "requested w r = None"
    from reserveItems_missing [OF this, of rs ups tot] Cons.prems show False by auto
  qed
  have b: "\<not> overstocked w r"
  proof
    assume "overstocked w r"
    from reserveItems_short [OF this, of rs ups tot] Cons.prems show False by simp
  qed
  from Cons.prems
  have "reserveItems rs (ups @ [planned w r]) (tot + lineTotal w r) (after_item w r) = (Inr x, w')"
    by (simp add: reserveItems_step [OF a b] del: reserveItems.simps)
  from Cons.IH [OF this] a b show ?case by simp
qed

section \<open>The loops over product updates\<close>

lemma updateInventory_effect:
  assumes "\<forall>u\<in>set ups. \<exists>i. toObjectId (iu_productId u) = Inr i"
  shows "\<exists>w'. updateInventory now oid s ups w = (Inr (), w') \<and> others_kept w w' \<and>
           (\<forall>pid p. products (working w) pid = Some p \<longrightarrow>
              (\<exists>p'. products (working w') pid = Some p' \<and>
                 stock p' = foldl (\<lambda>s q. s + (- q)) (stock p) (map quantityToReduce
                   (filter (\<lambda>u. targets pid (iu_productId u)) ups)) \<and>
                 stockHistory p' = stockHistory p @
                    map (\<lambda>u. \<lparr>se_orderId = oid, se_change = - quantityToReduce u,
                              se_timestamp = now, se_reason = ''order_placed''\<rparr>)
                      (filter (\<lambda>u. targets pid (iu_productId u)) ups)))"
  using assms
proof (induction ups arbitrary: w)
  case Nil
  show ?case by (simp add: succeed_def others_kept_def)
next
  case (Cons u ups)
  from Cons.prems obtain i where i: "toObjectId (iu_productId u) = Inr i" by auto
  let ?f = "(\<lambda>p. p\<lparr>stock := stock p + (- quantityToReduce u),
                         stockHistory := stockHistory p @
                           [\<lparr>se_orderId = oid,
                             se_change = - quantityToReduce u,
                             se_timestamp = now,
                             se_reason = ''order_placed''\<rparr>]\<rparr>)"
  from updateById_products_effect [OF i, of now ?f s w]
  obtain r1 w1 where w1: "updateById products_coll now (iu_productId u) ?f (Some s) w = (Inr r1, w1)"
    "others_kept w w1"
    "products (working w1) = (case products (working w) i of None \<Rightarrow> products (working w)
                | Some d \<Rightarrow> (products (working w))(i \<mapsto> (?f d)\<lparr>updatedAt := now\<rparr>))"
    by blast
  from Cons.prems have "\<forall>u\<in>set ups. \<exists>i. toObjectId (iu_productId u) = Inr i" by simp
  from Cons.IH [OF this, of w1] obtain w' where w':
    "updateInventory now oid s ups w1 = (Inr (), w')" "others_kept w1 w'"
    "\<forall>pid p. products (working w1) pid = Some p \<longrightarrow>
              (\<exists>p'. products (working w') pid = Some p' \<and>
                 stock p' = foldl (\<lambda>s q. s + (- q)) (stock p) (map quantityToReduce
                   (filter (\<lambda>u. targets pid (iu_productId u)) ups)) \<and>
                 stockHistory p' = stockHistory p @
                    map (\<lambda>u. \<lparr>se_orderId = oid, se_change = - quantityToReduce u,
                              se_timestamp = now, se_reason = ''order_placed''\<rparr>)
                      (filter (\<lambda>u. targets pid (iu_productId u)) ups))"
    by blast
  have run: "updateInventory now oid s (u # ups) w = (Inr (), w')"
    using w1(1) w'(1) by (simp add: andThen_def)
  have kept: "others_kept w w'"
    using w1(2) w'(2) by (rule others_kept_trans)
  have "\<exists>p'. products (working w') pid = Some p' \<and>
                 stock p' = foldl (\<lambda>s q. s + (- q)) (stock p) (map quantityToReduce
                   (filter (\<lambda>u. targets pid (iu_productId u)) (u # ups))) \<and>
                 stockHistory p' = stockHistory p @
                    map (\<lambda>u. \<lparr>se_orderId = oid, se_change = - quantityToReduce u,
                              se_timestamp = now, se_reason = ''order_placed''\<rparr>)
                      (filter (\<lambda>u. targets pid (iu_productId u)) (u # ups))"
    if p: "products (working w) pid = Some p" for pid p
  proof (cases "pid = i")
    case True
    with p w1(3) have "products (working w1) pid = Some ((?f p)\<lparr>updatedAt := now\<rparr>)" by simp
    from w'(3) [rule_format, OF this] True i show ?thesis
      by (auto simp: targets_def)
  next
    case False
    with p w1(3) have "products (working w1) pid = Some p"
      by (auto split: option.splits)
    from w'(3) [rule_format, OF this] False i show ?thesis
      by (auto simp: targets_def)
  qed
  with run kept show ?case by blast
qed

lemma restoreInventory_kept:
  "others_kept w (snd (restoreInventory now oid s its w))"
proof (induction its arbitrary: w)
  case Nil
  show ?case by (simp add: succeed_def others_kept_def)
next
  case (Cons it its)
  let ?m = "updateById products_coll now (i_productId it)
                (\<lambda>p. p\<lparr>stock := stock p + i_quantity it,
                         stockHistory := stockHistory p @
                           [\<lparr>se_orderId = oid,
                             se_change = i_quantity it,
                             se_timestamp = now,
                             se_reason = ''order_cancelled''\<rparr>]\<rparr>)
                (Some s)"
  have a: "others_kept w (snd (?m w))" by (rule updateById_products_kept)
  show ?case
  proof (cases "?m w")
    case (Pair r w1)
    with a have b: "others_kept w w1" by simp
    have c: "others_kept w1 (snd (restoreInventory now oid s its w1))" by (rule Cons.IH)
    from Pair b c show ?thesis
      by (cases r) (auto simp: andThen_def others_kept_def)
  qed
qed

section \<open>processOrder\<close>

lemma requested_valid:
  "requested w r \<noteq> None \<Longrightarrow> \<exists>i. toObjectId (i_productId (heap w r)) = Inr i"
  by (cases "toObjectId (i_productId (heap w r))") (auto simp: requested_def)



lemma processOrder_success:
  assumes buyer: "toObjectId (od_userId od) = Inr uid" "users (committed w) uid = Some u"
    and ok: "\<forall>r\<in>set items. requested w r \<noteq> None \<and> \<not> overstocked w r"
    and fresh: "orders (committed w) (idgen w (next_id w)) = None"
  shows "\<exists>res w' ord.
     processOrder now od items w = (Inr res, w') \<and>
     or_order res = (idgen w (next_id w), ord) \<and>
     or_totalAmount res = foldl (+) 0 (map (lineTotal w) items) \<and>
     ord = \<lparr>createdAt = now, updatedAt = now,
            o_userId = od_userId od,
            o_shippingAddress = od_shippingAddress od,
            o_paymentMethod = od_paymentMethod od,
            o_items = items,
            o_total = foldl (+) 0 (map (lineTotal w) items),
            o_status = ''pending'',
            o_cancelledAt = None,
            o_cancellationReason = None\<rparr> \<and>
     orders (committed w') =
       (orders (committed w))(idgen w (next_id w) \<mapsto> serialize_order (heap w') ord) \<and>
     heap w' = (\<lambda>x. if x \<in> set items then priced w x else heap w x) \<and>
     users (committed w') =
       (users (committed w))(uid \<mapsto>
          u\<lparr>orderHistory := orderHistory u @ [idgen w (next_id w)],
            totalOrders := totalOrders u + 1,
            totalSpent := totalSpent u + foldl (+) 0 (map (lineTotal w) items),
            updatedAt := now\<rparr>) \<and>
     (\<forall>pid p. products (committed w) pid = Some p \<longrightarrow>
        (\<exists>p'. products (committed w') pid = Some p' \<and>
           stock p' = foldl (\<lambda>s q. s + (- q)) (stock p) (map (\<lambda>r. i_quantity (heap w r))
             (filter (\<lambda>r. targets pid (i_productId (heap w r))) items)) \<and>
           stockHistory p' = stockHistory p @
             map (\<lambda>r. \<lparr>se_orderId = idgen w (next_id w), se_change = - i_quantity (heap w r),
                       se_timestamp = now, se_reason = ''order_placed''\<rparr>)
               (filter (\<lambda>r. targets pid (i_productId (heap w r))) items)))"
proof -
  let ?s = "Session (next_session w)"
  let ?oid = "idgen w (next_id w)"
  let ?total = "foldl (+) 0 (map (lineTotal w) items)"
  define w2 where "w2 = logged (Access ''users'' (FindOne uid) None) (begun w)"
  have e1: "findById users_coll (od_userId od) None (begun w) = (Inr (Some (uid, u)), w2)"
    using buyer by (simp add: findById_committed users_coll_def w2_def)
  have c2: "heap w2 = heap w" "committed w2 = committed w" "working w2 = committed w"
    "idgen w2 = idgen w" "next_id w2 = next_id w"
    by (simp_all add: w2_def)
  have "\<forall>r\<in>set items. requested w2 r \<noteq> None \<and> \<not> overstocked w2 r"
    using ok c2 by (simp add: requested_cong [of w2 w] overstocked_cong [of w2 w])
  from reserveItems_ok [OF this, of "[]" 0]
  obtain w3 where e2: "reserveItems items [] 0 w2 =
        (Inr (map (planned w2) items, foldl (+) 0 (map (lineTotal w2) items)), w3)"
    and c3: "committed w3 = committed w2" "working w3 = working w2" "idgen w3 = idgen w2"
      "next_id w3 = next_id w2"
      "heap w3 = (\<lambda>x. if x \<in> set items then priced w2 x else heap w2 x)"
    by auto
  have m1: "planned w2 = planned w"
    by (rule ext) (rule planned_cong [OF c2(1,2)])
  have m2: "lineTotal w2 = lineTotal w"
    by (rule ext) (rule lineTotal_cong [OF c2(1,2)])
  have m3: "priced w2 = priced w"
    by (rule ext) (rule priced_cong [OF c2(1,2)])
  have h3: "heap w3 = (\<lambda>x. if x \<in> set items then priced w x else heap w x)"
    using c3(5) c2 by (simp add: m3 cong: if_cong)
  let ?doc = "\<lparr>createdAt = 0, updatedAt = 0,
                   o_userId = od_userId od,
                   o_shippingAddress = od_shippingAddress od,
                   o_paymentMethod = od_paymentMethod od,
                   o_items = items,
                   o_total = ?total,
                   o_status = ''pending'',
                   o_cancelledAt = None,
                   o_cancellationReason = None\<rparr>"
  let ?ord = "?doc\<lparr>createdAt := now, updatedAt := now\<rparr>"
  have "orders (working w3) (idgen w3 (next_id w3)) = None"
    using fresh c2 c3 by simp
  from createOne_orders_effect [OF this, of now ?doc ?s]
  obtain w4 where e4: "createOne orders_coll now ?doc (Some ?s) w3 = (Inr (?oid, ?ord), w4)"
    and c4: "committed w4 = committed w" "heap w4 = heap w3"
      "users (working w4) = users (committed w)"
      "products (working w4) = products (committed w)"
      "profiles (working w4) = profiles (committed w)"
      "orders (working w4) = (orders (committed w))(?oid \<mapsto> serialize_order (heap w3) ?ord)"
    using c2 c3 by auto
  have "\<forall>u\<in>set (map (planned w) items). \<exists>i. toObjectId (iu_productId u) = Inr i"
  proof
    fix x
    assume "x \<in> set (map (planned w) items)"
    then obtain r where r: "r \<in> set items" "x = planned w r" by auto
    from ok r(1) have "requested w r \<noteq> None" by blast
    from requested_valid [OF this] r(2) show "\<exists>i. toObjectId (iu_productId x) = Inr i"
      by (simp add: planned_def)
  qed
  from updateInventory_effect [OF this, of now ?oid ?s w4]
  obtain w5 where e5: "updateInventory now ?oid ?s (map (planned w) items) w4 = (Inr (), w5)"
    and k5: "others_kept w4 w5"
    and p5: "\<forall>pid p. products (working w4) pid = Some p \<longrightarrow>
              (\<exists>p'. products (working w5) pid = Some p' \<and>
                 stock p' = foldl (\<lambda>s q. s + (- q)) (stock p) (map quantityToReduce
                   (filter (\<lambda>u. targets pid (iu_productId u)) (map (planned w) items))) \<and>
                 stockHistory p' = stockHistory p @
                    map (\<lambda>u. \<lparr>se_orderId = ?oid, se_change = - quantityToReduce u,
                              se_timestamp = now, se_reason = ''order_placed''\<rparr>)
                      (filter (\<lambda>u. targets pid (iu_productId u)) (map (planned w) items)))"
    by blast
  let ?f = "(\<lambda>u. u\<lparr>orderHistory := orderHistory u @ [?oid],
                           totalOrders := totalOrders u + 1,
                           totalSpent := totalSpent u + ?total\<rparr>)"
  from updateById_users_effect [OF buyer(1), of now ?f ?s w5]
  obtain r6 w6 where e6: "updateById users_coll now (od_userId od) ?f (Some ?s) w5 = (Inr r6, w6)"
    and c6: "committed w6 = committed w5" "heap w6 = heap w5"
      "orders (working w6) = orders (working w5)"
      "products (working w6) = products (working w5)"
      "profiles (working w6) = profiles (working w5)"
      "users (working w6) =
            (case users (working w5) uid of
               None \<Rightarrow> users (working w5)
             | Some d \<Rightarrow> (users (working w5))(uid \<mapsto> (?f d)\<lparr>updatedAt := now\<rparr>))"
    by blast
  let ?res = "\<lparr>or_success = True, or_order = (?oid, ?ord),
               or_totalAmount = ?total, or_message = ''Order processed successfully''\<rparr>"
  let ?w' = "endSession ?s (logged (CommitTransaction ?s) (w6\<lparr>committed := working w6\<rparr>))"
  have run: "processOrder now od items w = (Inr ?res, ?w')"
    unfolding processOrder_def withTransaction_eq
    using e2 by (simp add: andThen_def e1 m1 m2 e4 e5 e6 succeed_def)
  have fin: "committed ?w' = working w6" "heap ?w' = heap w6"
    by (simp_all add: endSession_def)
  have users': "users (working w6) = (users (committed w))(uid \<mapsto> (?f u)\<lparr>updatedAt := now\<rparr>)"
    using c6(6) k5 c4(3) buyer(2) by (simp add: others_kept_def)
  have heap': "heap w6 = (\<lambda>x. if x \<in> set items then priced w x else heap w x)"
    using c6(2) k5 c4(2) h3 by (simp add: others_kept_def)
  have "heap w6 = heap w3"
    using c6(2) k5 c4(2) by (simp add: others_kept_def)
  then have orders': "orders (working w6) = (orders (committed w))(?oid \<mapsto> serialize_order (heap w6) ?ord)"
    using c6(3) k5 c4(6) by (simp add: others_kept_def)
  have prods: "\<exists>p'. products (working w6) pid = Some p' \<and>
           stock p' = foldl (\<lambda>s q. s + (- q)) (stock p) (map (\<lambda>r. i_quantity (heap w r))
             (filter (\<lambda>r. targets pid (i_productId (heap w r))) items)) \<and>
           stockHistory p' = stockHistory p @
             map (\<lambda>r. \<lparr>se_orderId = ?oid, se_change = - i_quantity (heap w r),
                       se_timestamp = now, se_reason = ''order_placed''\<rparr>)
               (filter (\<lambda>r. targets pid (i_productId (heap w r))) items)"
    if "products (committed w) pid = Some p" for pid p
  proof -
    from that c4(4) have "products (working w4) pid = Some p" by simp
    from p5 [rule_format, OF this] show ?thesis
      by (simp add: c6(4) filter_map comp_def planned_def)
  qed
  show ?thesis
    using run fin users' orders' heap' prods by (simp del: fun_upd_apply) 
qed

section \<open>cancelOrder\<close>

lemma updateById_invalid:
  "toObjectId a = Inl e \<Longrightarrow> updateById c now a f opt w = (Inl e, w)"
  by (simp add: updateById_def throw_def)

lemma cancelOrder_rejected:
  assumes "toObjectId a = Inr oid"
    and "orders (committed w) oid = None \<and> e = NotFound \<or>
         (\<exists>ord. orders (committed w) oid = Some ord \<and>
            (o_status ord = ''cancelled'' \<and> e = AlreadyCancelled \<or>
             o_status ord \<in> {''shipped'', ''delivered''} \<and> e = NotCancellable))"
  shows "cancelOrder now a reason w =
           (Inl e,
            endSession (Session (next_session w))
              (logged (AbortTransaction (Session (next_session w)))
                 ((logged (Access ''orders'' (FindOne oid) None) (begun w))
                    \<lparr>working := committed w\<rparr>)))"
  using assms
  by (auto simp: cancelOrder_def withTransaction_eq findById_committed andThen_def
      orders_coll_def throw_def)

lemma cancelOrder_success:
  assumes "cancelOrder now a reason w = (Inr res, w')"
  shows "\<exists>oid ord bid. toObjectId a = Inr oid \<and> orders (committed w) oid = Some ord \<and>
           o_status ord \<noteq> ''cancelled'' \<and> o_status ord \<noteq> ''shipped'' \<and>
           o_status ord \<noteq> ''delivered'' \<and>
           orders (committed w') =
             (orders (committed w))(oid \<mapsto>
                ord\<lparr>o_status := ''cancelled'', o_cancelledAt := Some now,
                    o_cancellationReason := Some reason, updatedAt := now\<rparr>) \<and>
           toObjectId (o_userId ord) = Inr bid \<and>
           users (committed w') =
             (case users (committed w) bid of
                None \<Rightarrow> users (committed w)
              | Some u \<Rightarrow>
                  (users (committed w))(bid \<mapsto>
                     u\<lparr>orderHistory := filter (\<lambda>x. x \<noteq> oid) (orderHistory u),
                       totalOrders := totalOrders u + (- 1),
                       totalSpent := totalSpent u + (- o_total ord),
                       cancelledOrders := cancelledOrders u + 1,
                       updatedAt := now\<rparr>))"
proof -
  let ?s = "Session (next_session w)"
  from assms obtain oid where oid: "toObjectId a = Inr oid"
    by (cases "toObjectId a")
       (auto simp: cancelOrder_def withTransaction_eq andThen_def findById_def throw_def)
  define w2 where "w2 = logged (Access ''orders'' (FindOne oid) None) (begun w)"
  have e1: "findById orders_coll a None (begun w) =
              (Inr (map_option (Pair oid) (orders (committed w) oid)), w2)"
    using oid by (simp add: findById_committed orders_coll_def w2_def)
  from assms obtain ord where ord: "orders (committed w) oid = Some ord"
    by (cases "orders (committed w) oid")
       (auto simp: cancelOrder_def withTransaction_eq andThen_def e1 throw_def)
  from assms have st: "o_status ord \<noteq> ''cancelled''" "o_status ord \<noteq> ''shipped''"
      "o_status ord \<noteq> ''delivered''"
    by (auto simp: cancelOrder_def withTransaction_eq andThen_def e1 ord throw_def
        split: if_splits)
  obtain r3 w3 where e3: "restoreInventory now oid ?s (o_items ord) w2 = (r3, w3)"
    by (cases "restoreInventory now oid ?s (o_items ord) w2")
  have k3: "others_kept w2 w3"
    using restoreInventory_kept [of w2 now oid ?s "o_items ord"] e3 by simp
  from assms have r3: "r3 = Inr ()"
    by (cases r3) (auto simp: cancelOrder_def withTransaction_eq andThen_def e1 ord st e3)
  let ?f = "(\<lambda>ord. ord\<lparr>o_status := ''cancelled'',
                               o_cancelledAt := Some now,
                               o_cancellationReason := Some reason\<rparr>)"
  from updateById_orders_effect [OF oid, of now ?f ?s w3]
  obtain r4 w4 where e4: "updateById orders_coll now a ?f (Some ?s) w3 = (Inr r4, w4)"
    and c4: "committed w4 = committed w3"
      "users (working w4) = users (working w3)"
      "orders (working w4) =
            (case orders (working w3) oid of
               None \<Rightarrow> orders (working w3)
             | Some d \<Rightarrow> (orders (working w3))(oid \<mapsto> (?f d)\<lparr>updatedAt := now\<rparr>))"
    by blast
  let ?g = "(\<lambda>u. u\<lparr>orderHistory := filter (\<lambda>x. x \<noteq> oid) (orderHistory u),
                           totalOrders := totalOrders u + (- 1),
                           totalSpent := totalSpent u + (- o_total ord),
                           cancelledOrders := cancelledOrders u + 1\<rparr>)"
  from assms obtain bid where bid: "toObjectId (o_userId ord) = Inr bid"
    by (cases "toObjectId (o_userId ord)")
       (auto simp: cancelOrder_def withTransaction_eq andThen_def e1 ord st e3 r3 e4
          updateById_invalid)
  from updateById_users_effect [OF bid, of now ?g ?s w4]
  obtain r5 w5 where e5: "updateById users_coll now (o_userId ord) ?g (Some ?s) w4 = (Inr r5, w5)"
    and c5: "committed w5 = committed w4"
      "orders (working w5) = orders (working w4)"
      "users (working w5) =
            (case users (working w4) bid of
               None \<Rightarrow> users (working w4)
             | Some d \<Rightarrow> (users (working w4))(bid \<mapsto> (?g d)\<lparr>updatedAt := now\<rparr>))"
    by blast
  from assms have w': "w' = endSession ?s (logged (CommitTransaction ?s) (w5\<lparr>committed := working w5\<rparr>))"
    by (simp add: cancelOrder_def withTransaction_eq andThen_def e1 ord st e3 r3 e4
        e5 [simplified] succeed_def)
  have base: "orders (working w3) = orders (committed w)" "users (working w3) = users (committed w)"
    using k3 by (simp_all add: others_kept_def w2_def)
  have o: "orders (committed w') = (orders (committed w))(oid \<mapsto> (?f ord)\<lparr>updatedAt := now\<rparr>)"
    using w' c5(2) c4(3) base ord by (simp add: endSession_def split: option.splits)
  have u: "users (committed w') =
             (case users (committed w) bid of
                None \<Rightarrow> users (committed w)
              | Some d \<Rightarrow> (users (committed w))(bid \<mapsto> (?g d)\<lparr>updatedAt := now\<rparr>))"
    using w' c5(3) c4(2) base by (simp add: endSession_def split: option.splits)
  from oid ord st bid o u show ?thesis by simp
qed

section \<open>The loop of bulkUpdatePrices\<close>

lemma updatePrices_step:
  assumes "\<not> pu_newPrice u \<le> 0" and "toObjectId (pu_productId u) = Inr pid"
    and "products (committed w) pid = Some p"
  shows "\<exists>w1. updatePrices now s (u # ups) res w =
                 updatePrices now s ups
                   (res @ [\<lparr>pc_productId = pu_productId u, pc_productName = p_name p,
                            pc_oldPrice = price p, pc_newPrice = pu_newPrice u,
                            pc_change = pu_newPrice u - price p,
                            pc_changePercent = changePercent (pu_newPrice u) (price p)\<rparr>]) w1 \<and>
               others_kept w w1 \<and>
               products (working w1) =
                 (case products (working w) pid of
                    None \<Rightarrow> products (working w)
                  | Some d \<Rightarrow>
                      (products (working w))(pid \<mapsto>
                         d\<lparr>price := pu_newPrice u,
                           priceHistory := priceHistory d @
                             [\<lparr>pe_oldPrice = price p, pe_newPrice = pu_newPrice u,
                               pe_change = pu_newPrice u - price p,
                               pe_changePercent = changePercent (pu_newPrice u) (price p),
                               pe_reason = (case pu_reason u of None \<Rightarrow> ''Bulk price update''
                                            | Some r \<Rightarrow> r),
                               pe_timestamp = now, pe_updatedBy = ''system''\<rparr>],
                           updatedAt := now\<rparr>))"
  using assms
  by (auto simp: andThen_def findById_def findOne_def updateById_def findOneAndUpdate_def
      logged_def view_def modify_def products_coll_def others_kept_def Let_def
      split: option.splits)

lemma updatePrices_invalid:
  assumes "\<exists>u\<in>set ups. pu_newPrice u \<le> 0"
  shows "isl (fst (updatePrices now s ups res w))"
  using assms
proof (induction ups arbitrary: res w)
  case Nil
  then show ?case by simp
next
  case (Cons u ups)
  show ?case
  proof (cases "pu_newPrice u \<le> 0")
    case True
    then show ?thesis by (simp add: throw_def Let_def)
  next
    case False
    with Cons.prems have "\<exists>u\<in>set ups. pu_newPrice u \<le> 0" by auto
    from Cons.IH [OF this] False show ?thesis
      by (auto simp: andThen_def throw_def Let_def split: prod.splits sum.splits option.splits)
  qed
qed

lemma updatePrices_InvalidPrice:
  assumes "\<exists>u\<in>set ups. pu_newPrice u \<le> 0"
    and "\<forall>u\<in>set (takeWhile (\<lambda>u. \<not> pu_newPrice u \<le> 0) ups).
           \<exists>pid p. toObjectId (pu_productId u) = Inr pid \<and> products (committed w) pid = Some p"
  shows "fst (updatePrices now s ups res w) = Inl InvalidPrice"
  using assms
proof (induction ups arbitrary: res w)
  case Nil
  then show ?case by simp
next
  case (Cons u ups)
  show ?case
  proof (cases "pu_newPrice u \<le> 0")
    case True
    then show ?thesis by (simp add: throw_def Let_def)
  next
    case False
    then have pos: "\<not> pu_newPrice u \<le> 0" by simp
    with Cons.prems(2) obtain pid p where p: "toObjectId (pu_productId u) = Inr pid"
      "products (committed w) pid = Some p" by auto
    from updatePrices_step [OF pos p, of now s ups res]
    obtain w1 res1 where w1: "updatePrices now s (u # ups) res w = updatePrices now s ups res1 w1"
      "others_kept w w1" by blast
    from Cons.prems False have a: "\<exists>u\<in>set ups. pu_newPrice u \<le> 0" by auto
    from Cons.prems(2) pos w1(2)
    have b: "\<forall>u\<in>set (takeWhile (\<lambda>u. \<not> pu_newPrice u \<le> 0) ups).
           \<exists>pid p. toObjectId (pu_productId u) = Inr pid \<and> products (committed w1) pid = Some p"
      by (simp add: others_kept_def)
    from Cons.IH [OF a b] w1(1) show ?thesis by simp
  qed
qed

lemma updatePrices_effect:
  assumes "\<forall>u\<in>set ups. \<not> pu_newPrice u \<le> 0 \<and>
             (\<exists>pid p. toObjectId (pu_productId u) = Inr pid \<and> products (committed w) pid = Some p)"
  shows "\<exists>res' w'. updatePrices now s ups res w = (Inr res', w') \<and> others_kept w w' \<and>
           (\<forall>pid q p. products (working w) pid = Some q \<longrightarrow> products (committed w) pid = Some p \<longrightarrow>
              (\<exists>q' es. products (working w') pid = Some q' \<and>
                 priceHistory q' = priceHistory q @ es \<and>
                 map pe_newPrice es =
                   map pu_newPrice (filter (\<lambda>u. targets pid (pu_productId u)) ups) \<and>
                 (\<forall>e\<in>set es. pe_oldPrice e = price p \<and>
                    pe_changePercent e = changePercent (pe_newPrice e) (price p))))"
  using assms
proof (induction ups arbitrary: res w)
  case Nil
  show ?case by (simp add: succeed_def others_kept_def)
next
  case (Cons u ups)
  from Cons.prems obtain i pi where pos: "\<not> pu_newPrice u \<le> 0"
    and i: "toObjectId (pu_productId u) = Inr i" "products (committed w) i = Some pi"
    by auto
  let ?entry = "\<lparr>pe_oldPrice = price pi, pe_newPrice = pu_newPrice u,
                               pe_change = pu_newPrice u - price pi,
                               pe_changePercent = changePercent (pu_newPrice u) (price pi),
                               pe_reason = (case pu_reason u of None \<Rightarrow> ''Bulk price update''
                                            | Some r \<Rightarrow> r),
                               pe_timestamp = now, pe_updatedBy = ''system''\<rparr>"
  from updatePrices_step [OF pos i, of now s ups res]
  obtain w1 res1 where w1: "updatePrices now s (u # ups) res w = updatePrices now s ups res1 w1"
    "others_kept w w1"
    "products (working w1) =
                 (case products (working w) i of
                    None \<Rightarrow> products (working w)
                  | Some d \<Rightarrow>
                      (products (working w))(i \<mapsto>
                         d\<lparr>price := pu_newPrice u,
                           priceHistory := priceHistory d @ [?entry],
                           updatedAt := now\<rparr>))"
    by blast
  have cm: "committed w1 = committed w" using w1(2) by (simp add: others_kept_def)
  from Cons.prems cm
  have "\<forall>u\<in>set ups. \<not> pu_newPrice u \<le> 0 \<and>
             (\<exists>pid p. toObjectId (pu_productId u) = Inr pid \<and> products (committed w1) pid = Some p)"
    by simp
  from Cons.IH [OF this, of res1] obtain res' w' where w':
    "updatePrices now s ups res1 w1 = (Inr res', w')" "others_kept w1 w'"
    "\<forall>pid q p. products (working w1) pid = Some q \<longrightarrow> products (committed w1) pid = Some p \<longrightarrow>
              (\<exists>q' es. products (working w') pid = Some q' \<and>
                 priceHistory q' = priceHistory q @ es \<and>
                 map pe_newPrice es =
                   map pu_newPrice (filter (\<lambda>u. targets pid (pu_productId u)) ups) \<and>
                 (\<forall>e\<in>set es. pe_oldPrice e = price p \<and>
                    pe_changePercent e = changePercent (pe_newPrice e) (price p)))"
    by blast
  have run: "updatePrices now s (u # ups) res w = (Inr res', w')"
    using w1(1) w'(1) by simp
  have kept: "others_kept w w'"
    using w1(2) w'(2) by (rule others_kept_trans)
  have "\<exists>q' es. products (working w') pid = Some q' \<and>
                 priceHistory q' = priceHistory q @ es \<and>
                 map pe_newPrice es =
                   map pu_newPrice (filter (\<lambda>u. targets pid (pu_productId u)) (u # ups)) \<and>
                 (\<forall>e\<in>set es. pe_oldPrice e = price p \<and>
                    pe_changePercent e = changePercent (pe_newPrice e) (price p))"
    if q: "products (working w) pid = Some q" and p: "products (committed w) pid = Some p"
    for pid q p
  proof (cases "pid = i")
    case True
    let ?q1 = "q\<lparr>price := pu_newPrice u, priceHistory := priceHistory q @ [?entry],
                 updatedAt := now\<rparr>"
    from True q w1(3) have q1: "products (working w1) pid = Some ?q1" by simp
    from p cm have p1: "products (committed w1) pid = Some p" by simp
    from w'(3) [rule_format, OF q1 p1] obtain q' es where es:
      "products (working w') pid = Some q'" "priceHistory q' = priceHistory ?q1 @ es"
      "map pe_newPrice es = map pu_newPrice (filter (\<lambda>u. targets pid (pu_productId u)) ups)"
      "\<forall>e\<in>set es. pe_oldPrice e = price p \<and>
                    pe_changePercent e = changePercent (pe_newPrice e) (price p)"
      by blast
    from True p i(2) have pp: "pi = p" by simp
    show ?thesis
      apply (rule exI [of _ q'])
      apply (rule exI [of _ "?entry # es"])
      using es True i(1) pp by (simp add: targets_def)
  next
    case False
    with q w1(3) have q1: "products (working w1) pid = Some q"
      by (auto split: option.splits)
    from p cm have p1: "products (committed w1) pid = Some p" by simp
    from w'(3) [rule_format, OF q1 p1] False i(1) show ?thesis
      by (auto simp: targets_def)
  qed
  with run kept show ?case by blast
qed

lemma changePercent_zero:
  "isZero oldPrice \<Longrightarrow> \<not> isFinite (changePercent newPrice oldPrice)"
  by (cases "newPrice - oldPrice")
    (auto simp: changePercent_def times_jsnum_def inverse_jsnum_def divide_jsnum_def isZero_def
      signed_infinity_def signed_zero_def)

section \<open>Successful runs of processOrder\<close>

lemma createOne_orders_duplicate:
  assumes "orders (working w) (idgen w (next_id w)) \<noteq> None"
  shows "isl (fst (createOne orders_coll now d (Some s) w))"
  using assms
  by (auto simp: createOne_def insertOne_def andThen_def logged_def view_def orders_coll_def
      Let_def)

lemma processOrder_Inr:
  assumes "processOrder now od items w = (Inr res, w')"
  shows "\<exists>uid u. toObjectId (od_userId od) = Inr uid \<and> users (committed w) uid = Some u \<and>
           (\<forall>r\<in>set items. requested w r \<noteq> None \<and> \<not> overstocked w r) \<and>
           orders (committed w) (idgen w (next_id w)) = None"
proof -
  let ?s = "Session (next_session w)"
  from assms obtain uid where uid: "toObjectId (od_userId od) = Inr uid"
    by (cases "toObjectId (od_userId od)")
       (auto simp: processOrder_def withTransaction_eq andThen_def findById_def throw_def)
  define w2 where "w2 = logged (Access ''users'' (FindOne uid) None) (begun w)"
  have e1: "findById users_coll (od_userId od) None (begun w) =
              (Inr (map_option (Pair uid) (users (committed w) uid)), w2)"
    using uid by (simp add: findById_committed users_coll_def w2_def)
  from assms obtain u where u: "users (committed w) uid = Some u"
    by (cases "users (committed w) uid")
       (auto simp: processOrder_def withTransaction_eq andThen_def e1 throw_def)
  have c2: "heap w2 = heap w" "committed w2 = committed w" "working w2 = committed w"
    "idgen w2 = idgen w" "next_id w2 = next_id w"
    by (simp_all add: w2_def)
  obtain r3 w3 where e2: "reserveItems items [] 0 w2 = (r3, w3)"
    by (cases "reserveItems items [] 0 w2")
  from assms obtain x where x: "r3 = Inr x"
    by (cases r3) (auto simp: processOrder_def withTransaction_eq andThen_def e1 u e2)
  from reserveItems_Inr [OF e2 [unfolded x]]
  have ok2: "\<forall>r\<in>set items. requested w2 r \<noteq> None \<and> \<not> overstocked w2 r" .
  have ok: "\<forall>r\<in>set items. requested w r \<noteq> None \<and> \<not> overstocked w r"
    using ok2 by (simp add: requested_cong [OF c2(1,2)] overstocked_cong [OF c2(1,2)])
  from reserveItems_ok [OF ok2, of "[]" 0] e2 x
  have c3: "working w3 = working w2" "idgen w3 = idgen w2" "next_id w3 = next_id w2"
    by auto
  have fresh: "orders (committed w) (idgen w (next_id w)) = None"
  proof (rule ccontr)
    assume "orders (committed w) (idgen w (next_id w)) \<noteq> None"
    then have "orders (working w3) (idgen w3 (next_id w3)) \<noteq> None"
      using c2 c3 by simp
    from createOne_orders_duplicate [OF this, of now
        "\<lparr>createdAt = 0, updatedAt = 0,
                   o_userId = od_userId od,
                   o_shippingAddress = od_shippingAddress od,
                   o_paymentMethod = od_paymentMethod od,
                   o_items = items,
                   o_total = snd x,
                   o_status = ''pending'',
                   o_cancelledAt = None,
                   o_cancellationReason = None\<rparr>" ?s]
    obtain e4 w4 where "createOne orders_coll now
        \<lparr>createdAt = 0, updatedAt = 0,
                   o_userId = od_userId od,
                   o_shippingAddress = od_shippingAddress od,
                   o_paymentMethod = od_paymentMethod od,
                   o_items = items,
                   o_total = snd x,
                   o_status = ''pending'',
                   o_cancelledAt = None,
                   o_cancellationReason = None\<rparr> (Some ?s) w3 = (Inl e4, w4)"
      by (metis isl_def prod.collapse)
    with assms show False
      by (cases x)
         (simp add: processOrder_def withTransaction_eq andThen_def e1 u e2 x)
  qed
  from uid u ok fresh show ?thesis by blast
qed

section \<open>Store calls recorded inside a scope\<close>

lemma scoped_Access:
  assumes "scoped P w w'" and "Access c a opt \<in> set (trace w')"
    and "Access c a opt \<notin> set (trace w)"
  shows "P (Session (next_session w)) (Access c a opt)"
proof -
  from assms(1) obtain evs fin where
    t: "trace w' = trace w @ StartSession (Session (next_session w)) # evs @
            [fin, EndSession (Session (next_session w))]"
    and P: "list_all (P (Session (next_session w))) evs"
    and fin: "fin = CommitTransaction (Session (next_session w)) \<or>
         fin = AbortTransaction (Session (next_session w))"
    unfolding scoped_def by blast
  from assms(2,3) t fin have "Access c a opt \<in> set evs" by auto
  with P show ?thesis by (simp add: list_all_iff)
qed

section \<open>Runs on the sample world\<close>

lemmas sample_defs =
  sample_world_def sample_store_def sample_heap_def alice_def bob_def carol_def laptop_def
  mouse_def sample_def cable_def order1_def order2_def order3_def alice_id_def bob_id_def
  carol_id_def laptop_id_def mouse_id_def sample_id_def cable_id_def order1_id_def
  order2_id_def order3_id_def absent_id_def

lemmas run_defs =
  withTransaction_eq begun_def endSession_def logged_def andThen_def succeed_def throw_def
  findById_def findOne_def updateById_def findOneAndUpdate_def createOne_def insertOne_def
  view_def modify_def toObjectId_def users_coll_def orders_coll_def products_coll_def
  profiles_coll_def serialize_order_def readItem_def writeItem_def Let_def js_compare

lemma sample_transfer_trace:
  "trace (snd (transferFunds 7 (IdObject alice_id) (IdObject bob_id) (Finite 100) ''gift'' sample_world)) =
     [StartSession (Session 0),
      Access ''users'' (FindOne alice_id) None,
      Access ''users'' (FindOne bob_id) None,
      Access ''users'' (FindOneAndUpdate alice_id) (Some (Session 0)),
      Access ''users'' (FindOneAndUpdate bob_id) (Some (Session 0)),
      CommitTransaction (Session 0),
      EndSession (Session 0)]"
  by (simp add: transferFunds_def run_defs sample_defs)

lemma sample_cancel:
  "\<not> isl (fst (cancelOrder 9 (IdObject order1_id) ''changed my mind'' sample_world))"
  by (simp add: cancelOrder_def run_defs sample_defs)

lemma sample_order:
  "\<not> isl (fst (processOrder 7 \<lparr>od_userId = IdObject alice_id, od_shippingAddress = ''123 Main St'',
       od_paymentMethod = ''credit_card''\<rparr> [0, 1] sample_world))"
  by (simp add: processOrder_def run_defs sample_defs digit_def)

section \<open>Claims about transferFunds\<close>

text \<open>
  C7. A call of \<open>transferFunds\<close> with \<open>amount \<le> 0\<close> fails with \<open>InvalidAmount\<close>. The
  committed store is the one before the call, so both balances and both ledgers are
  unchanged, and no call reached the store: the trace grew by the opening, the abort and
  the end of the session only.
\<close>

theorem transferFunds_rejects_nonpositive_amount:
  assumes "amount \<le> 0"
  shows "fst (transferFunds now fromUserId toUserId amount description w) = Inl InvalidAmount \<and>
         committed (snd (transferFunds now fromUserId toUserId amount description w)) =
           committed w \<and>
         trace (snd (transferFunds now fromUserId toUserId amount description w)) =
           trace w @ [StartSession (Session (next_session w)),
                      AbortTransaction (Session (next_session w)),
                      EndSession (Session (next_session w))]"
  using assms
  by (simp add: transferFunds_def withTransaction_eq throw_def endSession_def)

theorem transferFunds_rejects_nonpositive_amount_witness:
  "Finite (- 5) \<le> 0 \<and>
   fst (transferFunds 7 (IdObject alice_id) (IdObject bob_id) (Finite (- 5)) ''refund'' sample_world) =
     Inl InvalidAmount \<and>
   committed (snd (transferFunds 7 (IdObject alice_id) (IdObject bob_id) (Finite (- 5)) ''refund''
     sample_world)) = committed sample_world \<and>
   trace (snd (transferFunds 7 (IdObject alice_id) (IdObject bob_id) (Finite (- 5)) ''refund''
     sample_world)) =
     [StartSession (Session 0), AbortTransaction (Session 0), EndSession (Session 0)]"
proof -
  have h: "Finite (- 5) \<le> 0" by (simp add: js_compare)
  from transferFunds_rejects_nonpositive_amount
    [OF h, of 7 "IdObject alice_id" "IdObject bob_id" "''refund''" sample_world] h
  show ?thesis by (simp add: sample_world_def)
qed




section \<open>Claims about the by-id operations of the repository\<close>

text \<open>
  C9. A string that is not a well-formed identifier makes \<open>findById\<close>, \<open>updateById\<close>
  and \<open>deleteById\<close> fail with \<open>InvalidIdentifier\<close> in the very world they were called
  in: nothing was read, changed or deleted, and the trace has no new call to the store.
\<close>

theorem by_id_operations_reject_malformed_identifier:
  assumes "\<not> isValidObjectId s"
  shows "findById c (IdString s) opt w = (Inl InvalidIdentifier, w) \<and>
         updateById c' now (IdString s) update opt w = (Inl InvalidIdentifier, w) \<and>
         deleteById c (IdString s) opt w = (Inl InvalidIdentifier, w)"
  using assms
  by (simp add: findById_def updateById_def deleteById_def toObjectId_def throw_def)

theorem by_id_operations_reject_malformed_identifier_witness:
  "\<not> isValidObjectId ''not-an-id'' \<and>
   findById users_coll (IdString ''not-an-id'') None sample_world =
     (Inl InvalidIdentifier, sample_world) \<and>
   updateById users_coll 7 (IdString ''not-an-id'') (\<lambda>u. u\<lparr>balance := 0\<rparr>) None sample_world =
     (Inl InvalidIdentifier, sample_world) \<and>
   deleteById users_coll (IdString ''not-an-id'') None sample_world =
     (Inl InvalidIdentifier, sample_world)"
proof -
  have h: "\<not> isValidObjectId ''not-an-id''" by (simp add: isValidObjectId_def)
  from by_id_operations_reject_malformed_identifier
    [OF h, of users_coll None sample_world users_coll 7 "\<lambda>u. u\<lparr>balance := 0\<rparr>"] h
  show ?thesis by simp
qed

section \<open>Claims about sessions\<close>

text \<open>
  C3, as stated, fails: the workflows call \<open>findById\<close> without the session. In a
  transfer from Alice to Bob the two reads reach the store with no session; only the two
  updates carry the session that the workflow opened.
\<close>

theorem transferFunds_reads_outside_session_counterexample:
  "trace (snd (transferFunds 7 (IdObject alice_id) (IdObject bob_id) (Finite 100) ''gift'' sample_world)) =
     [StartSession (Session 0),
      Access ''users'' (FindOne alice_id) None,
      Access ''users'' (FindOne bob_id) None,
      Access ''users'' (FindOneAndUpdate alice_id) (Some (Session 0)),
      Access ''users'' (FindOneAndUpdate bob_id) (Some (Session 0)),
      CommitTransaction (Session 0),
      EndSession (Session 0)] \<and>
   \<not> scoped all_in_session sample_world
       (snd (transferFunds 7 (IdObject alice_id) (IdObject bob_id) (Finite 100) ''gift'' sample_world))"
proof -
  let ?w' = "snd (transferFunds 7 (IdObject alice_id) (IdObject bob_id) (Finite 100) ''gift'' sample_world)"
  have "\<not> scoped all_in_session sample_world ?w'"
  proof
    assume "scoped all_in_session sample_world ?w'"
    moreover have "Access ''users'' (FindOne alice_id) None \<in> set (trace ?w')"
      by (simp add: sample_transfer_trace)
    moreover have "Access ''users'' (FindOne alice_id) None \<notin> set (trace sample_world)"
      by (simp add: sample_world_def)
    ultimately have "all_in_session (Session (next_session sample_world))
        (Access ''users'' (FindOne alice_id) None)"
      by (rule scoped_Access)
    then show False by simp
  qed
  with sample_transfer_trace show ?thesis by simp
qed

text \<open>
  C3, amended: each of the five workflows opens exactly one session, and every write it
  sends to the store (\<open>createOne\<close>, \<open>updateById\<close>) carries that session; its reads
  (\<open>findById\<close>) are sent without a session. The session is committed or aborted, then
  ended, after the last call.
\<close>

theorem workflows_write_in_one_session:
  "scoped in_session w (snd (invoke now c w))"
  by (rule invoke_scoped)

theorem workflows_write_in_one_session_witness:
  "scoped in_session sample_world
     (snd (invoke 9 (CancelOrder (IdObject order1_id) ''changed my mind'') sample_world))"
  by (rule workflows_write_in_one_session)

section \<open>Claims about cancelOrder\<close>

text \<open>
  C6, as stated, fails for an order identifier that is not well formed: no order has it,
  yet the call fails with \<open>InvalidIdentifier\<close>, raised by the read of the order, and
  not with \<open>NotFound\<close>.
\<close>

theorem cancelOrder_malformed_identifier_counterexample:
  "fst (cancelOrder 9 (IdString ''not-an-id'') ''changed my mind'' sample_world) =
     Inl InvalidIdentifier"
  by (simp add: cancelOrder_def withTransaction_eq andThen_def findById_def toObjectId_def
      isValidObjectId_def throw_def)

text \<open>
  C6, amended: for an order identifier that is well formed, an absent order gives
  \<open>NotFound\<close>, a cancelled one \<open>AlreadyCancelled\<close>, a shipped or delivered one
  \<open>NotCancellable\<close>, each with the committed store unchanged; in the shipped or
  delivered case the only call that reached the store is the read of the order. After a
  cancellation that succeeded, any further \<open>cancelOrder\<close> of the same order fails with
  \<open>AlreadyCancelled\<close> and leaves the committed store (stock, order, buyer) as the
  first cancellation left it.
\<close>

theorem cancelOrder_guards:
  assumes "toObjectId orderId = Inr oid"
  shows "(orders (committed w) oid = None \<longrightarrow>
            fst (cancelOrder now orderId reason w) = Inl NotFound \<and>
            committed (snd (cancelOrder now orderId reason w)) = committed w) \<and>
         (\<forall>ord. orders (committed w) oid = Some ord \<and> o_status ord = ''cancelled'' \<longrightarrow>
            fst (cancelOrder now orderId reason w) = Inl AlreadyCancelled \<and>
            committed (snd (cancelOrder now orderId reason w)) = committed w) \<and>
         (\<forall>ord. orders (committed w) oid = Some ord \<and>
              (o_status ord = ''shipped'' \<or> o_status ord = ''delivered'') \<longrightarrow>
            fst (cancelOrder now orderId reason w) = Inl NotCancellable \<and>
            committed (snd (cancelOrder now orderId reason w)) = committed w \<and>
            trace (snd (cancelOrder now orderId reason w)) =
              trace w @ [StartSession (Session (next_session w)),
                         Access ''orders'' (FindOne oid) None,
                         AbortTransaction (Session (next_session w)),
                         EndSession (Session (next_session w))]) \<and>
         (\<forall>res w1 now' reason'. cancelOrder now orderId reason w = (Inr res, w1) \<longrightarrow>
            fst (cancelOrder now' orderId reason' w1) = Inl AlreadyCancelled \<and>
            committed (snd (cancelOrder now' orderId reason' w1)) = committed w1)"
proof (intro conjI allI impI)
  assume "orders (committed w) oid = None"
  then have r: "cancelOrder now orderId reason w =
           (Inl NotFound,
            endSession (Session (next_session w))
              (logged (AbortTransaction (Session (next_session w)))
                 ((logged (Access ''orders'' (FindOne oid) None) (begun w))
                    \<lparr>working := committed w\<rparr>)))"
    by (intro cancelOrder_rejected [OF assms]) simp
  show "fst (cancelOrder now orderId reason w) = Inl NotFound"
    by (simp add: r)
  show "committed (snd (cancelOrder now orderId reason w)) = committed w"
    by (simp add: r endSession_def)
next
  fix ord
  assume "orders (committed w) oid = Some ord \<and> o_status ord = ''cancelled''"
  then have r: "cancelOrder now orderId reason w =
           (Inl AlreadyCancelled,
            endSession (Session (next_session w))
              (logged (AbortTransaction (Session (next_session w)))
                 ((logged (Access ''orders'' (FindOne oid) None) (begun w))
                    \<lparr>working := committed w\<rparr>)))"
    by (intro cancelOrder_rejected [OF assms]) simp
  show "fst (cancelOrder now orderId reason w) = Inl AlreadyCancelled"
    by (simp add: r)
  show "committed (snd (cancelOrder now orderId reason w)) = committed w"
    by (simp add: r endSession_def)
next
  fix ord
  assume "orders (committed w) oid = Some ord \<and>
              (o_status ord = ''shipped'' \<or> o_status ord = ''delivered'')"
  then have r: "cancelOrder now orderId reason w =
           (Inl NotCancellable,
            endSession (Session (next_session w))
              (logged (AbortTransaction (Session (next_session w)))
                 ((logged (Access ''orders'' (FindOne oid) None) (begun w))
                    \<lparr>working := committed w\<rparr>)))"
    by (intro cancelOrder_rejected [OF assms]) auto
  show "fst (cancelOrder now orderId reason w) = Inl NotCancellable"
    by (simp add: r)
  show "committed (snd (cancelOrder now orderId reason w)) = committed w"
    by (simp add: r endSession_def)
  show "trace (snd (cancelOrder now orderId reason w)) =
              trace w @ [StartSession (Session (next_session w)),
                         Access ''orders'' (FindOne oid) None,
                         AbortTransaction (Session (next_session w)),
                         EndSession (Session (next_session w))]"
    by (simp add: r endSession_def)
next
  fix res w1 now' reason'
  assume "cancelOrder now orderId reason w = (Inr res, w1)"
  from cancelOrder_success [OF this] assms
  obtain ord' where "orders (committed w1) oid = Some ord'" "o_status ord' = ''cancelled''"
    by auto
  then have r: "cancelOrder now' orderId reason' w1 =
           (Inl AlreadyCancelled,
            endSession (Session (next_session w1))
              (logged (AbortTransaction (Session (next_session w1)))
                 ((logged (Access ''orders'' (FindOne oid) None) (begun w1))
                    \<lparr>working := committed w1\<rparr>)))"
    by (intro cancelOrder_rejected [OF assms]) simp
  show "fst (cancelOrder now' orderId reason' w1) = Inl AlreadyCancelled"
    by (simp add: r)
  show "committed (snd (cancelOrder now' orderId reason' w1)) = committed w1"
    by (simp add: r endSession_def)
qed

lemma sample_lookups:
  "toObjectId (IdObject i) = Inr i"
  "orders (committed sample_world) absent_id = None"
  "orders (committed sample_world) order1_id = Some order1"
  "orders (committed sample_world) order2_id = Some order2"
  "orders (committed sample_world) order3_id = Some order3"
  "users (committed sample_world) alice_id = Some alice"
  "users (committed sample_world) bob_id = Some bob"
  "users (committed sample_world) absent_id = None"
  "products (committed sample_world) laptop_id = Some laptop"
  "products (committed sample_world) mouse_id = Some mouse"
  "products (committed sample_world) sample_id = Some sample"
  "products (committed sample_world) absent_id = None"
  "users (committed sample_world) carol_id = Some carol"
  "products (committed sample_world) cable_id = Some cable"
  by (simp_all add: toObjectId_def sample_world_def sample_store_def alice_id_def bob_id_def
      carol_id_def laptop_id_def mouse_id_def sample_id_def cable_id_def order1_id_def
      order2_id_def order3_id_def absent_id_def)

theorem cancelOrder_guards_witness:
  "toObjectId (IdObject absent_id) = Inr absent_id \<and>
   orders (committed sample_world) absent_id = None \<and>
   fst (cancelOrder 9 (IdObject absent_id) ''changed my mind'' sample_world) = Inl NotFound \<and>
   map_option o_status (orders (committed sample_world) order2_id) = Some ''shipped'' \<and>
   fst (cancelOrder 9 (IdObject order2_id) ''changed my mind'' sample_world) =
     Inl NotCancellable \<and>
   committed (snd (cancelOrder 9 (IdObject order2_id) ''changed my mind'' sample_world)) =
     committed sample_world \<and>
   \<not> isl (fst (cancelOrder 9 (IdObject order1_id) ''changed my mind'' sample_world)) \<and>
   fst (cancelOrder 10 (IdObject order1_id) ''again''
     (snd (cancelOrder 9 (IdObject order1_id) ''changed my mind'' sample_world))) =
     Inl AlreadyCancelled \<and>
   committed (snd (cancelOrder 10 (IdObject order1_id) ''again''
     (snd (cancelOrder 9 (IdObject order1_id) ''changed my mind'' sample_world)))) =
     committed (snd (cancelOrder 9 (IdObject order1_id) ''changed my mind'' sample_world))"
proof -
  have a: "toObjectId (IdObject absent_id) = Inr absent_id" by (rule sample_lookups)
  have b: "toObjectId (IdObject order2_id) = Inr order2_id" by (rule sample_lookups)
  have c: "toObjectId (IdObject order1_id) = Inr order1_id" by (rule sample_lookups)
  have s2: "o_status order2 = ''shipped''" by (simp add: order2_def)
  from sample_cancel obtain res w1 where
    run: "cancelOrder 9 (IdObject order1_id) ''changed my mind'' sample_world = (Inr res, w1)"
    by (cases "cancelOrder 9 (IdObject order1_id) ''changed my mind'' sample_world";
        cases "fst (cancelOrder 9 (IdObject order1_id) ''changed my mind'' sample_world)")
      auto
  from cancelOrder_guards [OF a, of sample_world 9 "''changed my mind''"]
  have 1: "fst (cancelOrder 9 (IdObject absent_id) ''changed my mind'' sample_world) = Inl NotFound"
    by (simp add: sample_lookups)
  from cancelOrder_guards [OF b, of sample_world 9 "''changed my mind''"] s2
  have 2: "fst (cancelOrder 9 (IdObject order2_id) ''changed my mind'' sample_world) =
     Inl NotCancellable"
    "committed (snd (cancelOrder 9 (IdObject order2_id) ''changed my mind'' sample_world)) =
     committed sample_world"
    by (simp_all add: sample_lookups)
  from cancelOrder_guards [OF c, of sample_world 9 "''changed my mind''"] run
  have 3: "fst (cancelOrder 10 (IdObject order1_id) ''again'' w1) = Inl AlreadyCancelled"
    "committed (snd (cancelOrder 10 (IdObject order1_id) ''again'' w1)) = committed w1"
    by blast+
  from 1 2 3 run s2 show ?thesis
    by (simp add: sample_lookups)
qed

section \<open>Claims about bulkUpdatePrices\<close>

text \<open>
  C5, as stated, fails in two ways. The prices are checked one entry at a time inside the
  loop, so an entry before the invalid one decides first: when it names a product that
  does not exist the batch fails with \<open>NotFound\<close>, not \<open>InvalidPrice\<close>; and when it is
  valid its update is sent to the store, inside the session, before the invalid entry is
  reached.
\<close>

theorem bulkUpdatePrices_earlier_entry_counterexample:
  "fst (bulkUpdatePrices 7
          [\<lparr>pu_productId = IdObject absent_id, pu_newPrice = Finite 10, pu_reason = None\<rparr>,
           \<lparr>pu_productId = IdObject mouse_id, pu_newPrice = Finite (- 1), pu_reason = None\<rparr>]
          sample_world) = Inl NotFound \<and>
   trace (snd (bulkUpdatePrices 7
          [\<lparr>pu_productId = IdObject laptop_id, pu_newPrice = Finite 1900, pu_reason = None\<rparr>,
           \<lparr>pu_productId = IdObject mouse_id, pu_newPrice = Finite (- 1), pu_reason = None\<rparr>]
          sample_world)) =
     [StartSession (Session 0),
      Access ''products'' (FindOne laptop_id) None,
      Access ''products'' (FindOneAndUpdate laptop_id) (Some (Session 0)),
      AbortTransaction (Session 0),
      EndSession (Session 0)]"
  by (simp add: bulkUpdatePrices_def run_defs sample_defs)

text \<open>
  C5, amended: if any entry has \<open>newPrice \<le> 0\<close> the whole batch fails and the
  transaction is aborted, so every product's price and \<open>priceHistory\<close> in the committed
  store is unchanged, also for the entries before the invalid one (whose updates were
  made inside the session and are discarded). The error is \<open>InvalidPrice\<close> when every
  entry before the first invalid one names an existing product. The invalid entries are
  those that the test \<open>newPrice <= 0\<close> of the code finds; a price that is NaN is not
  among them.
\<close>

theorem bulkUpdatePrices_rejects_whole_batch:
  assumes "\<exists>u\<in>set priceUpdates. pu_newPrice u \<le> 0"
  shows "isl (fst (bulkUpdatePrices now priceUpdates w)) \<and>
         committed (snd (bulkUpdatePrices now priceUpdates w)) = committed w \<and>
         ((\<forall>u\<in>set (takeWhile (\<lambda>u. \<not> pu_newPrice u \<le> 0) priceUpdates).
             \<exists>pid p. toObjectId (pu_productId u) = Inr pid \<and>
                     products (committed w) pid = Some p) \<longrightarrow>
          fst (bulkUpdatePrices now priceUpdates w) = Inl InvalidPrice)"
proof (intro conjI impI)
  let ?s = "Session (next_session w)"
  have "isl (fst (updatePrices now ?s priceUpdates [] (begun w)))"
    using assms by (rule updatePrices_invalid)
  then obtain e w2 where e: "updatePrices now ?s priceUpdates [] (begun w) = (Inl e, w2)"
    by (metis isl_def prod.collapse)
  then have f: "fst (bulkUpdatePrices now priceUpdates w) = Inl e"
    by (simp add: bulkUpdatePrices_def withTransaction_eq andThen_def)
  then show "isl (fst (bulkUpdatePrices now priceUpdates w))" by simp
  from f show "committed (snd (bulkUpdatePrices now priceUpdates w)) = committed w"
    by (rule bulkUpdatePrices_aborts)
  assume "\<forall>u\<in>set (takeWhile (\<lambda>u. \<not> pu_newPrice u \<le> 0) priceUpdates).
             \<exists>pid p. toObjectId (pu_productId u) = Inr pid \<and>
                     products (committed w) pid = Some p"
  then have "\<forall>u\<in>set (takeWhile (\<lambda>u. \<not> pu_newPrice u \<le> 0) priceUpdates).
             \<exists>pid p. toObjectId (pu_productId u) = Inr pid \<and>
                     products (committed (begun w)) pid = Some p"
    by simp
  with assms have "fst (updatePrices now ?s priceUpdates [] (begun w)) = Inl InvalidPrice"
    by (rule updatePrices_InvalidPrice)
  with e f show "fst (bulkUpdatePrices now priceUpdates w) = Inl InvalidPrice" by simp
qed

theorem bulkUpdatePrices_rejects_whole_batch_witness:
  "pu_newPrice \<lparr>pu_productId = IdObject mouse_id, pu_newPrice = Finite (- 1), pu_reason = None\<rparr> \<le> 0 \<and>
   products (committed sample_world) laptop_id = Some laptop \<and>
   fst (bulkUpdatePrices 7
          [\<lparr>pu_productId = IdObject laptop_id, pu_newPrice = Finite 1900, pu_reason = None\<rparr>,
           \<lparr>pu_productId = IdObject mouse_id, pu_newPrice = Finite (- 1), pu_reason = None\<rparr>]
          sample_world) = Inl InvalidPrice \<and>
   committed (snd (bulkUpdatePrices 7
          [\<lparr>pu_productId = IdObject laptop_id, pu_newPrice = Finite 1900, pu_reason = None\<rparr>,
           \<lparr>pu_productId = IdObject mouse_id, pu_newPrice = Finite (- 1), pu_reason = None\<rparr>]
          sample_world)) = committed sample_world"
proof -
  let ?ups = "[\<lparr>pu_productId = IdObject laptop_id, pu_newPrice = Finite 1900, pu_reason = None\<rparr>,
           \<lparr>pu_productId = IdObject mouse_id, pu_newPrice = Finite (- 1), pu_reason = None\<rparr>]"
  have h: "\<exists>u\<in>set ?ups. pu_newPrice u \<le> 0" by (simp add: js_compare)
  from bulkUpdatePrices_rejects_whole_batch [OF h, of 7 sample_world]
  show ?thesis by (simp add: sample_lookups js_compare)
qed

text \<open>
  C8. When every entry passes the price test and names an existing product, the batch
  succeeds whatever the old prices are, and each \<open>priceHistory\<close> entry it appends
  records the committed price as old price, with \<open>changePercent = ((newPrice - oldPrice)
  / oldPrice) * 100\<close> as the arithmetic of doubles computes it, each of the three
  operations rounding its result. Nothing guards the division: for an old price of 0
  the recorded value is no finite number but an infinity or NaN.
\<close>

theorem bulkUpdatePrices_changePercent:
  assumes "\<forall>u\<in>set priceUpdates. \<not> pu_newPrice u \<le> 0 \<and>
             (\<exists>pid p. toObjectId (pu_productId u) = Inr pid \<and>
                      products (committed w) pid = Some p)"
  shows "\<exists>res w'. bulkUpdatePrices now priceUpdates w = (Inr res, w') \<and>
           (\<forall>pid p. products (committed w) pid = Some p \<longrightarrow>
              (\<exists>p' es. products (committed w') pid = Some p' \<and>
                 priceHistory p' = priceHistory p @ es \<and>
                 map pe_newPrice es =
                   map pu_newPrice (filter (\<lambda>u. targets pid (pu_productId u)) priceUpdates) \<and>
                 (\<forall>e\<in>set es. pe_oldPrice e = price p \<and>
                    pe_changePercent e =
                      ((pe_newPrice e - price p) / price p) * Finite 100 \<and>
                    (isZero (price p) \<longrightarrow> \<not> isFinite (pe_changePercent e)))))"
proof -
  let ?s = "Session (next_session w)"
  from assms
  have "\<forall>u\<in>set priceUpdates. \<not> pu_newPrice u \<le> 0 \<and>
             (\<exists>pid p. toObjectId (pu_productId u) = Inr pid \<and>
                      products (committed (begun w)) pid = Some p)"
    by simp
  from updatePrices_effect [OF this, of now ?s "[]"]
  obtain res' w2 where run: "updatePrices now ?s priceUpdates [] (begun w) = (Inr res', w2)"
    and eff: "\<forall>pid q p. products (working (begun w)) pid = Some q \<longrightarrow>
              products (committed (begun w)) pid = Some p \<longrightarrow>
              (\<exists>q' es. products (working w2) pid = Some q' \<and>
                 priceHistory q' = priceHistory q @ es \<and>
                 map pe_newPrice es =
                   map pu_newPrice (filter (\<lambda>u. targets pid (pu_productId u)) priceUpdates) \<and>
                 (\<forall>e\<in>set es. pe_oldPrice e = price p \<and>
                    pe_changePercent e = changePercent (pe_newPrice e) (price p)))"
    by blast
  let ?res = "\<lparr>br_success = True, br_updatedCount = length res', br_results = res',
               br_timestamp = now,
               br_message = ''Bulk price update completed successfully''\<rparr>"
  let ?w' = "endSession ?s (logged (CommitTransaction ?s) (w2\<lparr>committed := working w2\<rparr>))"
  have r: "bulkUpdatePrices now priceUpdates w = (Inr ?res, ?w')"
    by (simp add: bulkUpdatePrices_def withTransaction_eq andThen_def run succeed_def)
  have "\<exists>p' es. products (committed ?w') pid = Some p' \<and>
                 priceHistory p' = priceHistory p @ es \<and>
                 map pe_newPrice es =
                   map pu_newPrice (filter (\<lambda>u. targets pid (pu_productId u)) priceUpdates) \<and>
                 (\<forall>e\<in>set es. pe_oldPrice e = price p \<and>
                    pe_changePercent e =
                      ((pe_newPrice e - price p) / price p) * Finite 100 \<and>
                    (isZero (price p) \<longrightarrow> \<not> isFinite (pe_changePercent e)))"
    if p: "products (committed w) pid = Some p" for pid p
  proof -
    from p have "products (working (begun w)) pid = Some p"
      "products (committed (begun w)) pid = Some p" by simp_all
    from eff [rule_format, OF this] obtain q' es where es:
      "products (working w2) pid = Some q'" "priceHistory q' = priceHistory p @ es"
      "map pe_newPrice es =
         map pu_newPrice (filter (\<lambda>u. targets pid (pu_productId u)) priceUpdates)"
      "\<forall>e\<in>set es. pe_oldPrice e = price p \<and>
                    pe_changePercent e = changePercent (pe_newPrice e) (price p)"
      by blast
    have key: "\<forall>e\<in>set es. pe_oldPrice e = price p \<and>
                    pe_changePercent e =
                      ((pe_newPrice e - price p) / price p) * Finite 100 \<and>
                    (isZero (price p) \<longrightarrow> \<not> isFinite (pe_changePercent e))"
      using es(4) by (auto simp: changePercent_zero) (simp add: changePercent_def)
    have fin: "committed ?w' = working w2" by (simp add: endSession_def)
    show ?thesis
    proof (intro exI conjI)
      show "products (committed ?w') pid = Some q'" using es(1) fin by simp
      show "priceHistory q' = priceHistory p @ es" by (rule es(2))
      show "map pe_newPrice es =
         map pu_newPrice (filter (\<lambda>u. targets pid (pu_productId u)) priceUpdates)"
        by (rule es(3))
      show "\<forall>e\<in>set es. pe_oldPrice e = price p \<and>
                    pe_changePercent e =
                      ((pe_newPrice e - price p) / price p) * Finite 100 \<and>
                    (isZero (price p) \<longrightarrow> \<not> isFinite (pe_changePercent e))"
        by (rule key)
    qed
  qed
  with r show ?thesis by blast
qed

text \<open>
  On the sample world: the free sample, priced at 0, gets the percentage \<open>Infinity\<close>;
  the cable, priced at 49.99, gets 20.02400480096019 for the new price 60.
\<close>

theorem bulkUpdatePrices_changePercent_witness:
  "products (committed sample_world) sample_id = Some sample \<and> price sample = 0 \<and>
   products (committed sample_world) cable_id = Some cable \<and>
   price cable = Finite (7035467042882847 / 140737488355328) \<and>
   \<not> Finite 5 \<le> 0 \<and> \<not> Finite 60 \<le> 0 \<and>
   (\<exists>res w' sample' cable' e1 e2.
      bulkUpdatePrices 7
        [\<lparr>pu_productId = IdObject sample_id, pu_newPrice = Finite 5, pu_reason = None\<rparr>,
         \<lparr>pu_productId = IdObject cable_id, pu_newPrice = Finite 60, pu_reason = None\<rparr>]
        sample_world = (Inr res, w') \<and>
      products (committed w') sample_id = Some sample' \<and> priceHistory sample' = [e1] \<and>
      pe_changePercent e1 = PosInfinity \<and>
      products (committed w') cable_id = Some cable' \<and> priceHistory cable' = [e2] \<and>
      pe_changePercent e2 = Finite (5636256285004333 / 281474976710656))"
proof -
  let ?ups = "[\<lparr>pu_productId = IdObject sample_id, pu_newPrice = Finite 5, pu_reason = None\<rparr>,
         \<lparr>pu_productId = IdObject cable_id, pu_newPrice = Finite 60, pu_reason = None\<rparr>]"
  have h: "\<forall>u\<in>set ?ups. \<not> pu_newPrice u \<le> 0 \<and>
             (\<exists>pid p. toObjectId (pu_productId u) = Inr pid \<and>
                      products (committed sample_world) pid = Some p)"
    by (simp add: sample_lookups js_compare)
  have ne: "sample_id \<noteq> cable_id" by (simp add: sample_id_def cable_id_def)
  have pc: "price cable = Finite (7035467042882847 / 140737488355328)"
    by (simp add: cable_def js_arith)
  have ph: "priceHistory cable = []" by (simp add: cable_def)
  have v1: "((Finite 5 - 0) / 0) * Finite 100 = PosInfinity"
    by (simp add: js_arith js_compare)
  have v2: "((Finite 60 - Finite (7035467042882847 / 140737488355328)) /
               Finite (7035467042882847 / 140737488355328)) * Finite 100 =
            Finite (5636256285004333 / 281474976710656)"
    by (simp add: js_arith)
  from bulkUpdatePrices_changePercent [OF h, of 7]
  obtain res w' where run: "bulkUpdatePrices 7 ?ups sample_world = (Inr res, w')"
    and eff: "\<And>pid p. products (committed sample_world) pid = Some p \<Longrightarrow>
              (\<exists>p' es. products (committed w') pid = Some p' \<and>
                 priceHistory p' = priceHistory p @ es \<and>
                 map pe_newPrice es =
                   map pu_newPrice (filter (\<lambda>u. targets pid (pu_productId u)) ?ups) \<and>
                 (\<forall>e\<in>set es. pe_oldPrice e = price p \<and>
                    pe_changePercent e =
                      ((pe_newPrice e - price p) / price p) * Finite 100 \<and>
                    (isZero (price p) \<longrightarrow> \<not> isFinite (pe_changePercent e))))"
    by blast
  from eff [OF sample_lookups(11)] ne
  obtain sample' e1 where 1: "products (committed w') sample_id = Some sample'"
    "priceHistory sample' = [e1]" "pe_changePercent e1 = PosInfinity"
    by (auto simp: targets_def toObjectId_def sample_def v1)
  from eff [OF sample_lookups(14)] ne
  obtain cable' e2 where 2: "products (committed w') cable_id = Some cable'"
    "priceHistory cable' = [e2]"
    "pe_changePercent e2 = Finite (5636256285004333 / 281474976710656)"
    by (auto simp: targets_def toObjectId_def pc v2 ph)
  from run 1 2 pc show ?thesis
    by (simp add: sample_lookups sample_def js_compare)
qed

section \<open>Claims about orderHistory\<close>

lemma invoke_grows:
  assumes "\<And>a r. c \<noteq> CancelOrder a r"
  shows "grows (users (committed w)) (users (committed (snd (invoke now c w))))"
  using assms
  by (cases c)
     (auto simp: invoke_def processOrder_grows transferFunds_grows bulkUpdatePrices_grows
        createUserWithSetup_grows)

lemma fst_forget_isl [simp]: "isl (fst (forget m w)) = isl (fst (m w))"
  by (cases "m w"; cases "fst (m w)") (auto simp: forget_def)

text \<open>
  C4, as stated, fails: \<open>cancelOrder\<close> pulls the identifier of the cancelled order out
  of the buyer's \<open>orderHistory\<close>. Alice's history holds three orders; after the
  cancellation of the first it holds the other two.
\<close>

theorem cancelOrder_pulls_order_counterexample:
  "map_option orderHistory (users (committed sample_world) alice_id) =
     Some [order1_id, order2_id, order3_id] \<and>
   \<not> isl (fst (cancelOrder 9 (IdObject order1_id) ''changed my mind'' sample_world)) \<and>
   map_option orderHistory
     (users (committed (snd (cancelOrder 9 (IdObject order1_id) ''changed my mind''
        sample_world))) alice_id) =
     Some [order2_id, order3_id]"
  by (simp add: cancelOrder_def run_defs sample_defs)

text \<open>
  C4, amended: no workflow deletes a user, and \<open>processOrder\<close>, \<open>transferFunds\<close>,
  \<open>bulkUpdatePrices\<close> and \<open>createUserWithSetup\<close> only ever append to a user's
  \<open>orderHistory\<close>. A \<open>cancelOrder\<close> that succeeds removes the identifier of the
  cancelled order, and nothing else, from the \<open>orderHistory\<close> of the buyer of that
  order; every other \<open>orderHistory\<close>, and every one after a \<open>cancelOrder\<close> that
  fails, is unchanged.
\<close>

theorem orderHistory_removed_only_by_cancelOrder:
  assumes "users (committed w) i = Some u"
  shows "\<exists>u'. users (committed (snd (invoke now c w))) i = Some u' \<and>
           (case c of
              CancelOrder orderId reason \<Rightarrow>
                (if \<not> isl (fst (invoke now c w)) \<and> buyer_of w orderId = Some i
                 then \<exists>oid. toObjectId orderId = Inr oid \<and>
                        orderHistory u' = filter (\<lambda>x. x \<noteq> oid) (orderHistory u)
                 else orderHistory u' = orderHistory u)
            | _ \<Rightarrow> (\<exists>ys. orderHistory u' = orderHistory u @ ys))"
proof (cases "\<exists>a r. c = CancelOrder a r")
  case False
  then have "grows (users (committed w)) (users (committed (snd (invoke now c w))))"
    by (intro invoke_grows) auto
  with assms obtain u' ys where "users (committed (snd (invoke now c w))) i = Some u'"
    "orderHistory u' = orderHistory u @ ys"
    unfolding grows_def by blast
  with False show ?thesis by (cases c) auto
next
  case True
  then obtain a r where c: "c = CancelOrder a r" by blast
  obtain res w' where run: "cancelOrder now a r w = (res, w')"
    by (cases "cancelOrder now a r w")
  show ?thesis
  proof (cases res)
    case (Inl e)
    with run have "committed (snd (cancelOrder now a r w)) = committed w"
      by (intro cancelOrder_aborts [of _ _ _ _ e]) simp
    with assms c run Inl show ?thesis
      by (simp add: invoke_def)
  next
    case (Inr x)
    from cancelOrder_success [OF run [unfolded Inr]]
    obtain oid ord bid where s: "toObjectId a = Inr oid" "orders (committed w) oid = Some ord"
      "toObjectId (o_userId ord) = Inr bid"
      "users (committed w') =
             (case users (committed w) bid of
                None \<Rightarrow> users (committed w)
              | Some u \<Rightarrow>
                  (users (committed w))(bid \<mapsto>
                     u\<lparr>orderHistory := filter (\<lambda>x. x \<noteq> oid) (orderHistory u),
                       totalOrders := totalOrders u + (- 1),
                       totalSpent := totalSpent u + (- o_total ord),
                       cancelledOrders := cancelledOrders u + 1,
                       updatedAt := now\<rparr>))"
      by blast
    have b: "buyer_of w a = Some bid"
      using s(1-3) by (simp add: buyer_of_def)
    show ?thesis
    proof (cases "bid = i")
      case True
      with assms s(4) have "users (committed w') i =
          Some (u\<lparr>orderHistory := filter (\<lambda>x. x \<noteq> oid) (orderHistory u),
                       totalOrders := totalOrders u + (- 1),
                       totalSpent := totalSpent u + (- o_total ord),
                       cancelledOrders := cancelledOrders u + 1,
                       updatedAt := now\<rparr>)"
        by simp
      with c run Inr b True s(1) show ?thesis
        by (simp add: invoke_def)
    next
      case False
      with assms s(4) have "users (committed w') i = Some u"
        by (simp split: option.splits)
      with c run Inr b False show ?thesis
        by (simp add: invoke_def)
    qed
  qed
qed

theorem orderHistory_removed_only_by_cancelOrder_witness:
  "users (committed sample_world) alice_id = Some alice \<and>
   orderHistory alice = [order1_id, order2_id, order3_id] \<and>
   (\<exists>u'. users (committed (snd (invoke 9
            (CancelOrder (IdObject order1_id) ''changed my mind'') sample_world))) alice_id =
          Some u' \<and>
        orderHistory u' = [order2_id, order3_id]) \<and>
   (\<exists>u' ys. users (committed (snd (invoke 7
            (TransferFunds (IdObject alice_id) (IdObject bob_id) (Finite 100) ''gift'') sample_world)))
            alice_id = Some u' \<and>
        orderHistory u' = [order1_id, order2_id, order3_id] @ ys)"
proof -
  have h: "users (committed sample_world) alice_id = Some alice" by (rule sample_lookups)
  have b: "buyer_of sample_world (IdObject order1_id) = Some alice_id"
    by (simp add: buyer_of_def sample_lookups order1_def)
  have ne: "order1_id \<noteq> order2_id" "order1_id \<noteq> order3_id"
    by (simp_all add: order1_id_def order2_id_def order3_id_def)
  from orderHistory_removed_only_by_cancelOrder
    [OF h, of 9 "CancelOrder (IdObject order1_id) ''changed my mind''"]
  have 1: "\<exists>u'. users (committed (snd (invoke 9
            (CancelOrder (IdObject order1_id) ''changed my mind'') sample_world))) alice_id =
          Some u' \<and>
        orderHistory u' = [order2_id, order3_id]"
    using sample_cancel b ne by (simp add: invoke_def sample_lookups alice_def)
  from orderHistory_removed_only_by_cancelOrder
    [OF h, of 7 "TransferFunds (IdObject alice_id) (IdObject bob_id) (Finite 100) ''gift''"]
  have 2: "\<exists>u' ys. users (committed (snd (invoke 7
            (TransferFunds (IdObject alice_id) (IdObject bob_id) (Finite 100) ''gift'') sample_world)))
            alice_id = Some u' \<and>
        orderHistory u' = [order1_id, order2_id, order3_id] @ ys"
    by (simp add: alice_def)
  from h 1 2 show ?thesis by (simp add: alice_def)
qed

section \<open>Claims about processOrder\<close>

lemma sample_requests:
  "requested sample_world 0 = Some (laptop_id, laptop)"
  "requested sample_world (Suc 0) = Some (mouse_id, mouse)"
  "requested sample_world 2 = Some (mouse_id, mouse)"
  "heap sample_world = sample_heap"
  "idgen sample_world (next_id sample_world) = ''f00000000000000000000000''"
  "requested sample_world 3 = None"
  "requested sample_world 4 = Some (cable_id, cable)"
  by (simp_all add: requested_def toObjectId_def digit_def sample_defs)

lemma sample_arith:
  "price cable = Finite (7035467042882847 / 140737488355328)"
  "Finite (7035467042882847 / 140737488355328) * Finite 5 =
     Finite (8794333803603559 / 35184372088832)"
  "0 + Finite (8794333803603559 / 35184372088832) = Finite (8794333803603559 / 35184372088832)"
  "Finite 2000 * 1 = Finite 2000" "Finite 2000 * Finite 1 = Finite 2000"
  "Finite 50 * Finite 2 = Finite 100"
  "0 + Finite 2000 = Finite 2000" "Finite 2000 + Finite 100 = Finite 2100"
  "0 + Finite 100 = Finite 100"
  "Finite 25 + - 1 = Finite 24" "Finite 25 + - Finite 1 = Finite 24"
  "Finite 5 + - Finite 2 = Finite 3"
  "Finite 25 + Finite (- 1) = Finite 24" "Finite 5 + Finite (- 2) = Finite 3"
  "Finite 100 + - Finite 5 = Finite 95"
  "- Finite 2 = Finite (- 2)" "- Finite 5 = Finite (- 5)" "- (1 :: jsnum) = Finite (- 1)"
  by (simp_all add: cable_def js_arith js_compare)

lemma sample_stock:
  "\<not> overstocked sample_world 0" "\<not> overstocked sample_world (Suc 0)"
  "overstocked sample_world 2"
  "lineTotal sample_world 0 = Finite 2000" "lineTotal sample_world (Suc 0) = Finite 100"
  "\<not> overstocked sample_world 3" "\<not> overstocked sample_world 4"
  "lineTotal sample_world 4 = Finite (8794333803603559 / 35184372088832)"
  by (simp_all add: overstocked_def lineTotal_def sample_requests)
     (simp_all add: sample_heap_def laptop_def mouse_def sample_arith js_compare,
      simp_all add: cable_def)




text \<open>
  C10. When \<open>processOrder\<close> succeeds, every item object of the caller's list names an
  existing product and has been rewritten in place: its \<open>price\<close> is the product's
  committed price and its \<open>total\<close> that price times its quantity, as the arithmetic of
  doubles gives it, whatever it held before; objects outside the list are untouched. The
  \<open>items\<close> of the order that \<open>createOne\<close> returned, which is the order of the result,
  are the caller's own references, not copies, and the item list of the stored order is
  the content of those objects.
\<close>

theorem processOrder_mutates_caller_items:
  assumes "processOrder now orderData items w = (Inr res, w')"
  shows "(\<forall>r\<in>set items. \<exists>pid p. requested w r = Some (pid, p) \<and>
            heap w' r = (heap w r)\<lparr>i_price := Some (price p),
                                   i_total := Some (price p * i_quantity (heap w r))\<rparr>) \<and>
         (\<forall>r. r \<notin> set items \<longrightarrow> heap w' r = heap w r) \<and>
         o_items (snd (or_order res)) = items \<and>
         map_option o_items (orders (committed w') (fst (or_order res))) =
           Some (map (heap w') items)"
proof -
  from processOrder_Inr [OF assms]
  obtain uid u where b: "toObjectId (od_userId orderData) = Inr uid"
    "users (committed w) uid = Some u"
    and ok: "\<forall>r\<in>set items. requested w r \<noteq> None \<and> \<not> overstocked w r"
    and fresh: "orders (committed w) (idgen w (next_id w)) = None"
    by blast
  from processOrder_success [OF b ok fresh, of now] assms
  obtain ord where r: "or_order res = (idgen w (next_id w), ord)"
    "o_items ord = items"
    "orders (committed w') =
       (orders (committed w))(idgen w (next_id w) \<mapsto> serialize_order (heap w') ord)"
    "heap w' = (\<lambda>x. if x \<in> set items then priced w x else heap w x)"
    by auto
  have 1: "\<forall>r\<in>set items. \<exists>pid p. requested w r = Some (pid, p) \<and>
            heap w' r = (heap w r)\<lparr>i_price := Some (price p),
                                   i_total := Some (price p * i_quantity (heap w r))\<rparr>"
    using ok r(4) by (auto simp: priced_def)
  have 2: "\<forall>r. r \<notin> set items \<longrightarrow> heap w' r = heap w r"
    using r(4) by simp
  have 3: "o_items (snd (or_order res)) = items"
    using r(1,2) by simp
  have 4: "map_option o_items (orders (committed w') (fst (or_order res))) =
           Some (map (heap w') items)"
    using r(1,2,3) by (simp add: serialize_order_def)
  from 1 2 3 4 show ?thesis by blast
qed

text \<open>
  On the sample world: the price 45 that the second object held is replaced by 50, and
  five cables at 49.99 get the total 249.95000000000002.
\<close>

theorem processOrder_mutates_caller_items_witness:
  "heap sample_world 1 = \<lparr>i_productId = IdObject mouse_id, i_quantity = Finite 2,
                           i_price = Some (Finite 45), i_total = None\<rparr> \<and>
   (\<exists>res w'.
      processOrder 7
          \<lparr>od_userId = IdObject alice_id, od_shippingAddress = ''123 Main St'',
           od_paymentMethod = ''credit_card''\<rparr> [1, 4] sample_world = (Inr res, w') \<and>
      heap w' 1 = \<lparr>i_productId = IdObject mouse_id, i_quantity = Finite 2,
                    i_price = Some (Finite 50), i_total = Some (Finite 100)\<rparr> \<and>
      heap w' 4 = \<lparr>i_productId = IdObject cable_id, i_quantity = Finite 5,
                    i_price = Some (Finite (7035467042882847 / 140737488355328)),
                    i_total = Some (Finite (8794333803603559 / 35184372088832))\<rparr> \<and>
      heap w' 2 = heap sample_world 2 \<and>
      o_items (snd (or_order res)) = [1, 4] \<and>
      map_option o_items (orders (committed w') (fst (or_order res))) =
        Some [heap w' 1, heap w' 4])"
proof -
  let ?od = "\<lparr>od_userId = IdObject alice_id, od_shippingAddress = ''123 Main St'',
           od_paymentMethod = ''credit_card''\<rparr>"
  have b: "toObjectId (od_userId ?od) = Inr alice_id" by (simp add: sample_lookups)
  have u: "users (committed sample_world) alice_id = Some alice" by (rule sample_lookups)
  have ok: "\<forall>r\<in>set [1, 4 :: nat]. requested sample_world r \<noteq> None \<and>
              \<not> overstocked sample_world r"
    by (simp add: sample_requests sample_stock)
  have fresh: "orders (committed sample_world) (idgen sample_world (next_id sample_world)) = None"
    by (simp add: sample_requests)
       (simp add: sample_world_def sample_store_def order1_id_def order2_id_def order3_id_def)
  from processOrder_success [OF b u ok fresh, of 7]
  obtain res w' where
    run: "processOrder 7 ?od [1, 4] sample_world = (Inr res, w')"
    by blast
  from processOrder_mutates_caller_items [OF run]
  have a: "\<forall>r\<in>set [1, 4 :: nat]. \<exists>pid p. requested sample_world r = Some (pid, p) \<and>
            heap w' r = (heap sample_world r)\<lparr>i_price := Some (price p),
              i_total := Some (price p * i_quantity (heap sample_world r))\<rparr>"
    and b: "\<forall>r. r \<notin> set [1, 4 :: nat] \<longrightarrow> heap w' r = heap sample_world r"
    and c: "o_items (snd (or_order res)) = [1, 4]"
    and d: "map_option o_items (orders (committed w') (fst (or_order res))) =
           Some (map (heap w') [1, 4])"
    by blast+
  from a have h1: "heap w' 1 = \<lparr>i_productId = IdObject mouse_id, i_quantity = Finite 2,
                    i_price = Some (Finite 50), i_total = Some (Finite 100)\<rparr>"
    by (simp add: sample_requests sample_heap_def sample_arith mouse_def)
  from a have h4: "heap w' 4 = \<lparr>i_productId = IdObject cable_id, i_quantity = Finite 5,
                    i_price = Some (Finite (7035467042882847 / 140737488355328)),
                    i_total = Some (Finite (8794333803603559 / 35184372088832))\<rparr>"
    by (simp add: sample_requests sample_heap_def sample_arith)
  from b have h2: "heap w' 2 = heap sample_world 2" by simp
  from d have d': "map_option o_items (orders (committed w') (fst (or_order res))) =
        Some [heap w' 1, heap w' 4]" by simp
  have h0: "heap sample_world 1 = \<lparr>i_productId = IdObject mouse_id, i_quantity = Finite 2,
                           i_price = Some (Finite 45), i_total = None\<rparr>"
    by (simp add: sample_requests sample_heap_def)
  from h0 run h1 h4 h2 c d' show ?thesis by blast
qed

text \<open>
  The writes to the caller's objects are not part of the transaction. In a run that fails
  at its second item the first object keeps the price and total written before the
  failure, while the committed store is unchanged.
\<close>

lemma processOrder_failed_run_keeps_item_writes:
  "fst (processOrder 7
          \<lparr>od_userId = IdObject alice_id, od_shippingAddress = ''123 Main St'',
           od_paymentMethod = ''credit_card''\<rparr> [0, 2] sample_world) = Inl OutOfStock \<and>
   heap (snd (processOrder 7
          \<lparr>od_userId = IdObject alice_id, od_shippingAddress = ''123 Main St'',
           od_paymentMethod = ''credit_card''\<rparr> [0, 2] sample_world)) 0 =
     \<lparr>i_productId = IdObject laptop_id, i_quantity = 1,
      i_price = Some (Finite 2000), i_total = Some (Finite 2000)\<rparr>"
  by (simp add: processOrder_def run_defs sample_defs sample_arith [unfolded one_jsnum_def])

end
